theory Spec2Isabelle
  imports Complex_Main "HOL-Library.Word"
begin

section \<open>Vulkan objects used by ComputeNBody.cpp\<close>

text \<open>
  The example records command buffers and submits them to two queues.  A command buffer
  is modelled as the list of commands recorded into it, in recording order.  Queue-family
  indices, particle counts and access masks are the 32-bit unsigned values of the
  source; access-mask bits have the values of the Vulkan headers.
\<close>

type_synonym uint32_t = "32 word"

definition VK_QUEUE_FAMILY_IGNORED :: uint32_t where
  "VK_QUEUE_FAMILY_IGNORED = - 1"

definition VK_ACCESS_VERTEX_ATTRIBUTE_READ_BIT :: uint32_t where
  "VK_ACCESS_VERTEX_ATTRIBUTE_READ_BIT = 0x4"

definition VK_ACCESS_SHADER_READ_BIT :: uint32_t where
  "VK_ACCESS_SHADER_READ_BIT = 0x20"

definition VK_ACCESS_SHADER_WRITE_BIT :: uint32_t where
  "VK_ACCESS_SHADER_WRITE_BIT = 0x40"

datatype VkPipelineStage =
    TOP_OF_PIPE
  | VERTEX_INPUT
  | COLOR_ATTACHMENT_OUTPUT
  | COMPUTE_SHADER
  | BOTTOM_OF_PIPE

datatype VkBuffer = StagingBuffer | StorageBuffer

datatype VkPipeline = PipelineCalculate | PipelineIntegrate | GraphicsPipeline

datatype VkPipelineBindPoint = BIND_POINT_GRAPHICS | BIND_POINT_COMPUTE

text \<open>
  A buffer memory barrier.  Every barrier of the example covers the whole storage
  buffer (offset 0, the buffer's size), so offset and size are not kept.
\<close>

record VkBufferMemoryBarrier =
  srcAccessMask :: uint32_t
  dstAccessMask :: uint32_t
  srcQueueFamilyIndex :: uint32_t
  dstQueueFamilyIndex :: uint32_t
  buffer :: VkBuffer

datatype command =
    CmdCopyBuffer VkBuffer VkBuffer
  | CmdPipelineBarrier VkPipelineStage VkPipelineStage "VkBufferMemoryBarrier list"
  | CmdBindPipeline VkPipelineBindPoint VkPipeline
  | CmdBindDescriptorSets VkPipelineBindPoint
  | CmdDispatch uint32_t uint32_t uint32_t
  | CmdBeginLabel string
  | CmdEndLabel
  | CmdBeginRenderPass nat
  | CmdSetViewport
  | CmdSetScissor
  | CmdBindVertexBuffers VkBuffer
  | CmdDraw uint32_t uint32_t uint32_t uint32_t
  | DrawUI
  | CmdEndRenderPass

section \<open>Recording the command buffers\<close>

text \<open>
  Each function takes \<open>graphics.queueFamilyIndex\<close> (\<open>qf_g\<close>),
  \<open>compute.queueFamilyIndex\<close> (\<open>qf_c\<close>) and, where it is used,
  \<open>numParticles\<close>, and returns the recorded commands.
\<close>

text \<open>The barrier \<open>buffer_barrier\<close> of \<open>prepareStorageBuffers\<close> (upload-time release).\<close>

definition buffer_barrier :: "uint32_t \<Rightarrow> uint32_t \<Rightarrow> VkBufferMemoryBarrier" where
  "buffer_barrier qf_g qf_c =
     \<lparr>srcAccessMask = VK_ACCESS_VERTEX_ATTRIBUTE_READ_BIT, dstAccessMask = 0,
      srcQueueFamilyIndex = qf_g, dstQueueFamilyIndex = qf_c, buffer = StorageBuffer\<rparr>"

text \<open>The copy command buffer \<open>copyCmd\<close> of \<open>prepareStorageBuffers\<close>.\<close>

definition copyCmd :: "uint32_t \<Rightarrow> uint32_t \<Rightarrow> command list" where
  "copyCmd qf_g qf_c =
     [CmdCopyBuffer StagingBuffer StorageBuffer] @
     (if qf_g \<noteq> qf_c
      then [CmdPipelineBarrier VERTEX_INPUT BOTTOM_OF_PIPE [buffer_barrier qf_g qf_c]]
      else [])"

text \<open>The two barriers named \<open>bufferBarrier\<close> in \<open>buildCommandBuffersForMainRendering\<close>.\<close>

definition bufferBarrier_acquire :: "uint32_t \<Rightarrow> uint32_t \<Rightarrow> VkBufferMemoryBarrier" where
  "bufferBarrier_acquire qf_g qf_c =
     \<lparr>srcAccessMask = 0, dstAccessMask = VK_ACCESS_VERTEX_ATTRIBUTE_READ_BIT,
      srcQueueFamilyIndex = qf_c, dstQueueFamilyIndex = qf_g, buffer = StorageBuffer\<rparr>"

definition bufferBarrier_release :: "uint32_t \<Rightarrow> uint32_t \<Rightarrow> VkBufferMemoryBarrier" where
  "bufferBarrier_release qf_g qf_c =
     \<lparr>srcAccessMask = VK_ACCESS_VERTEX_ATTRIBUTE_READ_BIT, dstAccessMask = 0,
      srcQueueFamilyIndex = qf_g, dstQueueFamilyIndex = qf_c, buffer = StorageBuffer\<rparr>"

text \<open>The body of the loop over \<open>drawCmdBuffers\<close>: what is recorded into \<open>drawCmdBuffers[i]\<close>.\<close>

definition drawCmdBuffer :: "uint32_t \<Rightarrow> uint32_t \<Rightarrow> uint32_t \<Rightarrow> nat \<Rightarrow> command list" where
  "drawCmdBuffer qf_g qf_c numParticles i =
     [CmdBeginLabel ''Acquire barrier''] @
     (if qf_g \<noteq> qf_c
      then [CmdPipelineBarrier TOP_OF_PIPE VERTEX_INPUT [bufferBarrier_acquire qf_g qf_c]]
      else []) @
     [CmdEndLabel,
      CmdBeginLabel ''Draw the particle system'',
      CmdBeginRenderPass i,
      CmdSetViewport,
      CmdSetScissor,
      CmdBindPipeline BIND_POINT_GRAPHICS GraphicsPipeline,
      CmdBindDescriptorSets BIND_POINT_GRAPHICS,
      CmdBindVertexBuffers StorageBuffer,
      CmdDraw numParticles 1 0 0,
      CmdEndLabel,
      DrawUI,
      CmdEndRenderPass] @
     (if qf_g \<noteq> qf_c
      then [CmdPipelineBarrier VERTEX_INPUT BOTTOM_OF_PIPE [bufferBarrier_release qf_g qf_c]]
      else [])"

text \<open>The loop itself, over \<open>n\<close> swapchain command buffers.\<close>

definition buildCommandBuffersForMainRendering ::
  "uint32_t \<Rightarrow> uint32_t \<Rightarrow> uint32_t \<Rightarrow> nat \<Rightarrow> command list list" where
  "buildCommandBuffersForMainRendering qf_g qf_c numParticles n =
     map (drawCmdBuffer qf_g qf_c numParticles) [0..<n]"

text \<open>The three barriers of \<open>buildComputeCommandBuffer\<close>, under the source's names.\<close>

definition toCpmputeBufferBarrier :: "uint32_t \<Rightarrow> uint32_t \<Rightarrow> VkBufferMemoryBarrier" where
  "toCpmputeBufferBarrier qf_g qf_c =
     \<lparr>srcAccessMask = 0, dstAccessMask = VK_ACCESS_SHADER_WRITE_BIT,
      srcQueueFamilyIndex = qf_g, dstQueueFamilyIndex = qf_c, buffer = StorageBuffer\<rparr>"

definition secondComputePassBufferBarrier :: VkBufferMemoryBarrier where
  "secondComputePassBufferBarrier =
     \<lparr>srcAccessMask = VK_ACCESS_SHADER_WRITE_BIT, dstAccessMask = VK_ACCESS_SHADER_READ_BIT,
      srcQueueFamilyIndex = VK_QUEUE_FAMILY_IGNORED,
      dstQueueFamilyIndex = VK_QUEUE_FAMILY_IGNORED, buffer = StorageBuffer\<rparr>"

definition computeToGraphicBufferBarrier :: "uint32_t \<Rightarrow> uint32_t \<Rightarrow> VkBufferMemoryBarrier" where
  "computeToGraphicBufferBarrier qf_g qf_c =
     \<lparr>srcAccessMask = VK_ACCESS_SHADER_WRITE_BIT, dstAccessMask = 0,
      srcQueueFamilyIndex = qf_c, dstQueueFamilyIndex = qf_g, buffer = StorageBuffer\<rparr>"

text \<open>
  \<open>buildComputeCommandBuffer\<close>.  The workgroup count \<open>numParticles / 256\<close> is the
  unsigned 32-bit division of the source.
\<close>

definition buildComputeCommandBuffer :: "uint32_t \<Rightarrow> uint32_t \<Rightarrow> uint32_t \<Rightarrow> command list" where
  "buildComputeCommandBuffer qf_g qf_c numParticles =
     (if qf_g \<noteq> qf_c
      then [CmdPipelineBarrier TOP_OF_PIPE COMPUTE_SHADER [toCpmputeBufferBarrier qf_g qf_c]]
      else []) @
     [CmdBindPipeline BIND_POINT_COMPUTE PipelineCalculate,
      CmdBindDescriptorSets BIND_POINT_COMPUTE,
      CmdDispatch (numParticles div 256) 1 1,
      CmdPipelineBarrier COMPUTE_SHADER COMPUTE_SHADER [secondComputePassBufferBarrier],
      CmdBindPipeline BIND_POINT_COMPUTE PipelineIntegrate,
      CmdDispatch (numParticles div 256) 1 1] @
     (if qf_g \<noteq> qf_c
      then [CmdPipelineBarrier COMPUTE_SHADER BOTTOM_OF_PIPE
              [computeToGraphicBufferBarrier qf_g qf_c]]
      else [])"

subsection \<open>Reading a recorded command buffer\<close>

fun barriersOf :: "command \<Rightarrow> VkBufferMemoryBarrier list" where
  "barriersOf (CmdPipelineBarrier src dst bs) = bs"
| "barriersOf c = []"

definition allBarriers :: "command list \<Rightarrow> VkBufferMemoryBarrier list" where
  "allBarriers cmds = concat (map barriersOf cmds)"

text \<open>
  A barrier transfers queue-family ownership when its source and destination family
  differ; a barrier with both set to \<open>VK_QUEUE_FAMILY_IGNORED\<close> does not.
\<close>

definition isOwnershipTransfer :: "VkBufferMemoryBarrier \<Rightarrow> bool" where
  "isOwnershipTransfer b = (srcQueueFamilyIndex b \<noteq> dstQueueFamilyIndex b)"

definition ownershipBarriers :: "command list \<Rightarrow> VkBufferMemoryBarrier list" where
  "ownershipBarriers cmds = filter isOwnershipTransfer (concat (map barriersOf cmds))"

text \<open>
  The barriers written for a hand-over between the queue families are those that name
  a queue family; the barrier between the two dispatches names none.  A command buffer
  emits a hand-over barrier when it records at least one barrier that names a family,
  whether or not the two families named are the same.
\<close>

definition namesQueueFamily :: "VkBufferMemoryBarrier \<Rightarrow> bool" where
  "namesQueueFamily b =
     (\<not> (srcQueueFamilyIndex b = VK_QUEUE_FAMILY_IGNORED \<and>
         dstQueueFamilyIndex b = VK_QUEUE_FAMILY_IGNORED))"

definition emitsBarrier :: "command list \<Rightarrow> bool" where
  "emitsBarrier cmds = (filter namesQueueFamily (allBarriers cmds) \<noteq> [])"

fun groupCountOf :: "command \<Rightarrow> uint32_t list" where
  "groupCountOf (CmdDispatch gx gy gz) = [gx]"
| "groupCountOf c = []"

definition dispatchGroupCounts :: "command list \<Rightarrow> uint32_t list" where
  "dispatchGroupCounts cmds = concat (map groupCountOf cmds)"

fun isDispatch :: "command \<Rightarrow> bool" where
  "isDispatch (CmdDispatch gx gy gz) = True"
| "isDispatch c = False"

section \<open>Dispatched compute threads\<close>

text \<open>
  Modelled from the spec: the compute workgroup size ("workgroup size 256 particles per
  group").  The shaders that declare the local size are not under \<open>src/\<close>.
\<close>

definition workgroupSize :: nat where
  "workgroupSize = 256"

text \<open>
  Modelled from the spec: the particle indices touched by a one-dimensional dispatch
  of \<open>groups\<close> workgroups, one thread per particle: thread \<open>l\<close> of group \<open>g\<close> has
  the global index \<open>g * workgroupSize + l\<close>.
\<close>

definition globalInvocationIDs :: "nat \<Rightarrow> nat list" where
  "globalInvocationIDs groups =
     concat (map (\<lambda>g. map (\<lambda>l. g * workgroupSize + l) [0..<workgroupSize]) [0..<groups])"

text \<open>
  Modelled from the spec: the particle indices touched by the threads of one recorded
  command.  A dispatch of \<open>gx\<close> by \<open>gy\<close> by \<open>gz\<close> workgroups runs \<open>gy * gz\<close> rows of
  \<open>gx\<close> workgroups, and a thread indexes the particle buffer by the first component of
  its global index; commands other than a dispatch run no compute thread.
\<close>

fun threadsOf :: "command \<Rightarrow> nat list" where
  "threadsOf (CmdDispatch gx gy gz) =
     concat (replicate (unat gy * unat gz) (globalInvocationIDs (unat gx)))"
| "threadsOf c = []"

text \<open>The particle indices touched by each dispatch of a command buffer, in recording order.\<close>

definition dispatchedThreads :: "command list \<Rightarrow> nat list list" where
  "dispatchedThreads cmds = map threadsOf (filter isDispatch cmds)"

text \<open>The rounded-up quotient the spec asks for.\<close>

definition ceilDiv :: "nat \<Rightarrow> nat \<Rightarrow> nat" where
  "ceilDiv n d = nat \<lceil>real n / real d\<rceil>"

section \<open>The particle initializer of prepareStorageBuffers\<close>

subsection \<open>float values\<close>

text \<open>
  A \<open>float\<close> is modelled as a real number, or \<open>None\<close> for a value that is not a finite
  number (an infinity or NaN).  Rounding and overflow are not modelled: on finite
  values the operations are those of the reals.  Division by zero and the root of a
  negative number are not finite, and an operation on a value that is not finite gives
  a value that is not finite.  (The one infinity the initializer can meet is the
  inverse root of 0, and it is only ever multiplied by 0, which is NaN.)
\<close>

type_synonym float = "real option"

definition fadd :: "float \<Rightarrow> float \<Rightarrow> float" where
  "fadd a b = (case a of None \<Rightarrow> None | Some x \<Rightarrow> (case b of None \<Rightarrow> None | Some y \<Rightarrow> Some (x + y)))"

definition fsub :: "float \<Rightarrow> float \<Rightarrow> float" where
  "fsub a b = (case a of None \<Rightarrow> None | Some x \<Rightarrow> (case b of None \<Rightarrow> None | Some y \<Rightarrow> Some (x - y)))"

definition fmul :: "float \<Rightarrow> float \<Rightarrow> float" where
  "fmul a b = (case a of None \<Rightarrow> None | Some x \<Rightarrow> (case b of None \<Rightarrow> None | Some y \<Rightarrow> Some (x * y)))"

definition fdiv :: "float \<Rightarrow> float \<Rightarrow> float" where
  "fdiv a b =
     (case a of None \<Rightarrow> None
      | Some x \<Rightarrow> (case b of None \<Rightarrow> None
                   | Some y \<Rightarrow> if y = 0 then None else Some (x / y)))"

definition fsqrt :: "float \<Rightarrow> float" where
  "fsqrt a = (case a of None \<Rightarrow> None | Some x \<Rightarrow> if x < 0 then None else Some (sqrt x))"

subsection \<open>GLM vectors\<close>

datatype vec3 = Vec3 (x3: float) (y3: float) (z3: float)

datatype vec4 = Vec4 (x4: float) (y4: float) (z4: float) (w4: float)

record Particle =
  pos :: vec4
  vel :: vec4

text \<open>\<open>glm::vec3(a, b, c)\<close> of three finite values.\<close>

definition vec3f :: "real \<Rightarrow> real \<Rightarrow> real \<Rightarrow> vec3" where
  "vec3f a b c = Vec3 (Some a) (Some b) (Some c)"

definition vec4_of :: "vec3 \<Rightarrow> float \<Rightarrow> vec4" where
  "vec4_of v w = Vec4 (x3 v) (y3 v) (z3 v) w"

definition xyz :: "vec4 \<Rightarrow> vec3" where
  "xyz v = Vec3 (x4 v) (y4 v) (z4 v)"

definition vec3_add :: "vec3 \<Rightarrow> vec3 \<Rightarrow> vec3" where
  "vec3_add a b = Vec3 (fadd (x3 a) (x3 b)) (fadd (y3 a) (y3 b)) (fadd (z3 a) (z3 b))"

definition vec3_sub :: "vec3 \<Rightarrow> vec3 \<Rightarrow> vec3" where
  "vec3_sub a b = Vec3 (fsub (x3 a) (x3 b)) (fsub (y3 a) (y3 b)) (fsub (z3 a) (z3 b))"

definition vec3_scale :: "vec3 \<Rightarrow> float \<Rightarrow> vec3" where
  "vec3_scale a s = Vec3 (fmul (x3 a) s) (fmul (y3 a) s) (fmul (z3 a) s)"

definition glm_dot :: "vec3 \<Rightarrow> vec3 \<Rightarrow> float" where
  "glm_dot a b = fadd (fadd (fmul (x3 a) (x3 b)) (fmul (y3 a) (y3 b))) (fmul (z3 a) (z3 b))"

definition glm_cross :: "vec3 \<Rightarrow> vec3 \<Rightarrow> vec3" where
  "glm_cross a b =
     Vec3 (fsub (fmul (y3 a) (z3 b)) (fmul (y3 b) (z3 a)))
          (fsub (fmul (z3 a) (x3 b)) (fmul (z3 b) (x3 a)))
          (fsub (fmul (x3 a) (y3 b)) (fmul (x3 b) (y3 a)))"

definition glm_length :: "vec3 \<Rightarrow> float" where
  "glm_length v = fsqrt (glm_dot v v)"

definition glm_inversesqrt :: "float \<Rightarrow> float" where
  "glm_inversesqrt a = fdiv (Some 1) (fsqrt a)"

definition glm_normalize :: "vec3 \<Rightarrow> vec3" where
  "glm_normalize v = vec3_scale v (glm_inversesqrt (glm_dot v v))"

subsection \<open>The configuration\<close>

text \<open>The attractor list and the two values of the macro \<open>PARTICLES_PER_ATTRACTOR\<close>.\<close>

definition attractors :: "vec3 list" where
  "attractors =
     [vec3f 5 0 0, vec3f (- 5) 0 0, vec3f 0 0 5, vec3f 0 0 (- 5), vec3f 0 4 0, vec3f 0 (- 8) 0]"

definition PARTICLES_PER_ATTRACTOR :: "bool \<Rightarrow> nat" where
  "PARTICLES_PER_ATTRACTOR android = (if android then 3 * 1024 else 4 * 1024)"

text \<open>\<open>static_cast<uint32_t>(attractors.size())\<close>, and \<open>numParticles\<close> as line 163 computes it.\<close>

definition ATTRACTORS_SIZE :: "vec3 list \<Rightarrow> uint32_t" where
  "ATTRACTORS_SIZE atts = of_nat (length atts)"

definition numParticlesOf :: "vec3 list \<Rightarrow> nat \<Rightarrow> uint32_t" where
  "numParticlesOf atts ppa = ATTRACTORS_SIZE atts * of_nat ppa"

subsection \<open>The two loops\<close>

text \<open>
  The random source.  \<open>rnd k\<close> is the \<open>k\<close>-th value that \<open>rndDist(rndEngine)\<close>
  returns, a finite number; the functions below thread the number \<open>k\<close> of values drawn
  so far.  C++ does not fix the order in which the three draws inside one
  \<open>glm::vec3(...)\<close> are made: it is the parameter \<open>ord\<close>, where the argument at
  position \<open>p\<close> (0, 1 or 2) receives draw number \<open>ord p\<close> of the three.  Left to right
  is \<open>\<lambda>p. p\<close>, right to left is \<open>\<lambda>p. 2 - p\<close>.
\<close>

text \<open>The \<open>j == 0\<close> branch: the heavy centre of gravity of group \<open>i\<close>.\<close>

definition centerParticle :: "vec3 list \<Rightarrow> nat \<Rightarrow> Particle" where
  "centerParticle atts i =
     \<lparr>pos = vec4_of (vec3_scale (atts ! i) (Some 1.5)) (Some 90000),
      vel = Vec4 (Some 0) (Some 0) (Some 0) (Some 0)\<rparr>"

text \<open>
  The \<open>else\<close> branch: seven draws, starting at draw number \<open>k\<close>: three for the
  position, three for the velocity, one for the mass.
\<close>

definition orbitParticle ::
  "(nat \<Rightarrow> real) \<Rightarrow> (nat \<Rightarrow> nat) \<Rightarrow> vec3 list \<Rightarrow> nat \<Rightarrow> nat \<Rightarrow> Particle" where
  "orbitParticle rnd ord atts i k =
     (let position0 = vec3_add (atts ! i)
                        (vec3_scale (vec3f (rnd (k + ord 0)) (rnd (k + ord 1)) (rnd (k + ord 2)))
                           (Some 0.75));
          len = glm_length (glm_normalize (vec3_sub position0 (atts ! i)));
          position = Vec3 (x3 position0)
                       (fmul (y3 position0) (fsub (Some 2) (fmul len len)))
                       (z3 position0);
          angular = vec3_scale (vec3f 0.5 1.5 0.5) (Some (if i mod 2 = 0 then 1 else - 1));
          velocity = vec3_add (glm_cross (vec3_sub position (atts ! i)) angular)
                       (Vec3 (Some (rnd (k + 3 + ord 0))) (Some (rnd (k + 3 + ord 1)))
                          (fmul (Some (rnd (k + 3 + ord 2))) (Some 0.025)));
          mass = fmul (fadd (fmul (Some (rnd (k + 6))) (Some 0.5)) (Some 0.5)) (Some 75)
      in \<lparr>pos = vec4_of position mass, vel = vec4_of velocity (Some 0)\<rparr>)"

text \<open>
  One iteration of the inner loop: the particle written to
  \<open>particleBuffer[i*PARTICLES_PER_ATTRACTOR + j]\<close> and the number of values drawn
  afterwards.  The last line of the iteration overwrites \<open>vel.w\<close> with the gradient
  offset \<open>(float)i*1.0f / ATTRACTORS_SIZE\<close>.
\<close>

definition loopBody ::
  "(nat \<Rightarrow> real) \<Rightarrow> (nat \<Rightarrow> nat) \<Rightarrow> vec3 list \<Rightarrow> nat \<Rightarrow> nat \<Rightarrow> nat \<Rightarrow> Particle \<times> nat" where
  "loopBody rnd ord atts i j k =
     (let (particle, k') =
            (if j = 0 then (centerParticle atts i, k)
             else (orbitParticle rnd ord atts i k, k + 7));
          v = vel particle
      in (particle\<lparr>vel := Vec4 (x4 v) (y4 v) (z4 v)
                              (fdiv (fmul (Some (real i)) (Some 1))
                                 (Some (real (unat (ATTRACTORS_SIZE atts)))))\<rparr>, k'))"

text \<open>
  The inner loop over \<open>j\<close>, run on the list of its indices.  The index into the vector
  is computed in 32 bits; \<open>operator[]\<close> past the end of the vector is undefined
  behaviour, the result \<open>None\<close>.
\<close>

fun forJ :: "(nat \<Rightarrow> real) \<Rightarrow> (nat \<Rightarrow> nat) \<Rightarrow> vec3 list \<Rightarrow> nat \<Rightarrow> nat \<Rightarrow> nat list \<Rightarrow>
    Particle list \<times> nat \<Rightarrow> (Particle list \<times> nat) option" where
  "forJ rnd ord atts ppa i [] st = Some st"
| "forJ rnd ord atts ppa i (j # js) (buf, k) =
     (let idx = (i * ppa + j) mod 2 ^ 32 in
      if idx < length buf
      then forJ rnd ord atts ppa i js (buf[idx := fst (loopBody rnd ord atts i j k)],
             snd (loopBody rnd ord atts i j k))
      else None)"

text \<open>The outer loop over \<open>i\<close>.\<close>

fun forI :: "(nat \<Rightarrow> real) \<Rightarrow> (nat \<Rightarrow> nat) \<Rightarrow> vec3 list \<Rightarrow> nat \<Rightarrow> nat list \<Rightarrow>
    Particle list \<times> nat \<Rightarrow> (Particle list \<times> nat) option" where
  "forI rnd ord atts ppa [] st = Some st"
| "forI rnd ord atts ppa (i # is) st =
     (case forJ rnd ord atts ppa i [0..<ppa] st of
        None \<Rightarrow> None
      | Some st' \<Rightarrow> forI rnd ord atts ppa is st')"

text \<open>
  Lines 163 to 202: the vector of \<open>numParticles\<close> elements, each initially \<open>d\<close>
  (what \<open>std::vector<Particle>(numParticles)\<close> puts there), filled by the two loops.
\<close>

definition particleBuffer ::
  "(nat \<Rightarrow> real) \<Rightarrow> (nat \<Rightarrow> nat) \<Rightarrow> vec3 list \<Rightarrow> nat \<Rightarrow> Particle \<Rightarrow> Particle list option" where
  "particleBuffer rnd ord atts ppa d =
     map_option fst
       (forI rnd ord atts ppa [0..<unat (ATTRACTORS_SIZE atts)]
          (replicate (unat (numParticlesOf atts ppa)) d, 0))"

text \<open>
  The seed of line 168, \<open>benchmark.active ? 0 : (unsigned)time(nullptr)\<close>, and the
  initializer run from it.  \<open>engine seed\<close> is the sequence of values that the
  standard library's \<open>default_random_engine\<close> seeded with \<open>seed\<close> yields through
  \<open>normal_distribution<float>(0, 1)\<close>; it is a parameter.
\<close>

definition rndSeed :: "bool \<Rightarrow> int \<Rightarrow> uint32_t" where
  "rndSeed benchmark_active time_now = (if benchmark_active then 0 else word_of_int time_now)"

definition prepareStorageBuffers ::
  "(uint32_t \<Rightarrow> nat \<Rightarrow> real) \<Rightarrow> (nat \<Rightarrow> nat) \<Rightarrow> bool \<Rightarrow> int \<Rightarrow> vec3 list \<Rightarrow> nat \<Rightarrow>
    Particle \<Rightarrow> Particle list option" where
  "prepareStorageBuffers engine ord benchmark_active time_now atts ppa d =
     particleBuffer (engine (rndSeed benchmark_active time_now)) ord atts ppa d"

subsection \<open>The particle at a given index\<close>

text \<open>
  Before the particle at index \<open>idx\<close> is set up, every earlier non-centre particle has
  drawn seven values.
\<close>

definition drawsBefore :: "nat \<Rightarrow> nat \<Rightarrow> nat \<Rightarrow> nat" where
  "drawsBefore ppa i j = 7 * (i * (ppa - 1) + (j - 1))"

definition particleAt :: "(nat \<Rightarrow> real) \<Rightarrow> (nat \<Rightarrow> nat) \<Rightarrow> vec3 list \<Rightarrow> nat \<Rightarrow> nat \<Rightarrow> Particle" where
  "particleAt rnd ord atts ppa idx =
     fst (loopBody rnd ord atts (idx div ppa) (idx mod ppa)
            (drawsBefore ppa (idx div ppa) (idx mod ppa)))"

definition mass :: "Particle \<Rightarrow> float" where
  "mass p = w4 (pos p)"

text \<open>A mass strictly greater than 0 (so a finite one).\<close>

definition massPositive :: "Particle \<Rightarrow> bool" where
  "massPositive p = (case mass p of None \<Rightarrow> False | Some m \<Rightarrow> 0 < m)"

definition gradientIndex :: "Particle \<Rightarrow> float" where
  "gradientIndex p = w4 (vel p)"

definition velocity :: "Particle \<Rightarrow> vec3" where
  "velocity p = xyz (vel p)"

section \<open>Per-frame submission: render and draw\<close>

datatype VkSemaphore = graphics_semaphore | compute_semaphore | presentComplete | renderComplete

datatype VkQueue = graphicQueue | compute_queue

text \<open>
  The two kinds of command buffer that are submitted: \<open>compute.commandBuffer\<close> and
  \<open>drawCmdBuffers[currentCmdBufferIndex]\<close>.
\<close>

datatype VkCommandBuffer = compute_commandBuffer | drawCmdBuffers_current

datatype HostBuffer = compute_uniformBuffer | graphics_uniformBuffer

record VkSubmitInfo =
  pWaitSemaphores :: "VkSemaphore list"
  pWaitDstStageMask :: "VkPipelineStage list"
  pCommandBuffers :: "VkCommandBuffer list"
  pSignalSemaphores :: "VkSemaphore list"

text \<open>What the host does, in program order.\<close>

datatype host_call =
    Memcpy HostBuffer
  | QueueSubmit VkQueue VkSubmitInfo
  | QueueWaitIdle VkQueue
  | AcquireNextImage VkSemaphore
  | QueuePresent VkSemaphore

text \<open>
  Modelled from the spec: the submit description of the base library's initializer
  \<open>GenSubmitInfo\<close> (not under \<open>src/\<close>), with no wait semaphore, no command buffer and
  no signal semaphore; \<open>prepareGraphicPass\<close> uses it for the "initial release".
\<close>

definition GenSubmitInfo :: VkSubmitInfo where
  "GenSubmitInfo =
     \<lparr>pWaitSemaphores = [], pWaitDstStageMask = [], pCommandBuffers = [],
      pSignalSemaphores = []\<rparr>"

text \<open>
  Modelled from the spec: \<open>VulkanExampleBase::prepareFrame\<close> (not under \<open>src/\<close>)
  "acquires the next presentable image", whose availability the presentation engine
  signals on \<open>semaphores.presentComplete\<close>.
\<close>

definition prepareFrame :: "host_call list" where
  "prepareFrame = [AcquireNextImage presentComplete]"

text \<open>
  Modelled from the spec: \<open>VulkanExampleBase::submitFrame\<close> (not under \<open>src/\<close>)
  "presents", waiting on the present-ready semaphore \<open>semaphores.renderComplete\<close>.
\<close>

definition submitFrame :: "host_call list" where
  "submitFrame = [QueuePresent renderComplete]"

text \<open>Lines 441 to 446 of \<open>prepareGraphicPass\<close>: signal the semaphore for the first run.\<close>

definition firstRunSubmitInfo :: VkSubmitInfo where
  "firstRunSubmitInfo = GenSubmitInfo\<lparr>pSignalSemaphores := [graphics_semaphore]\<rparr>"

definition prepareGraphicPass :: "host_call list" where
  "prepareGraphicPass = [QueueSubmit graphicQueue firstRunSubmitInfo, QueueWaitIdle graphicQueue]"

text \<open>
  \<open>draw\<close>.  Every semaphore and command-buffer field of the inherited \<open>submitInfo\<close> is
  assigned before the graphics submission, so that description is written out in full.
\<close>

definition computeSubmitInfo :: VkSubmitInfo where
  "computeSubmitInfo =
     GenSubmitInfo\<lparr>pCommandBuffers := [compute_commandBuffer],
                   pWaitSemaphores := [graphics_semaphore],
                   pWaitDstStageMask := [COMPUTE_SHADER],
                   pSignalSemaphores := [compute_semaphore]\<rparr>"

definition submitInfo :: VkSubmitInfo where
  "submitInfo =
     \<lparr>pWaitSemaphores = [compute_semaphore, presentComplete],
      pWaitDstStageMask = [VERTEX_INPUT, COLOR_ATTACHMENT_OUTPUT],
      pCommandBuffers = [drawCmdBuffers_current],
      pSignalSemaphores = [graphics_semaphore, renderComplete]\<rparr>"

definition draw :: "host_call list" where
  "draw =
     [QueueSubmit compute_queue computeSubmitInfo] @
     prepareFrame @
     [QueueSubmit graphicQueue submitInfo] @
     submitFrame"

definition updateComputeUniformBuffers :: "host_call list" where
  "updateComputeUniformBuffers = [Memcpy compute_uniformBuffer]"

definition updateGraphicsUniformBuffers :: "host_call list" where
  "updateGraphicsUniformBuffers = [Memcpy graphics_uniformBuffer]"

definition render :: "bool \<Rightarrow> host_call list" where
  "render prepared =
     (if \<not> prepared then []
      else updateComputeUniformBuffers @ updateGraphicsUniformBuffers @ draw)"

text \<open>
  The host program from the first-run signal on: \<open>prepareGraphicPass\<close>, then \<open>n\<close>
  rendered frames.  (\<open>prepareComputePass\<close> runs in between and submits nothing; the
  upload of \<open>prepareStorageBuffers\<close> is flushed before.)
\<close>

definition hostProgram :: "nat \<Rightarrow> host_call list" where
  "hostProgram n = prepareGraphicPass @ concat (replicate n (render True))"

fun submissionsOf :: "host_call \<Rightarrow> (VkQueue \<times> VkSubmitInfo) list" where
  "submissionsOf (QueueSubmit q si) = [(q, si)]"
| "submissionsOf c = []"

section \<open>Queues and binary semaphores\<close>

text \<open>
  The device side, as the spec's resource model describes it: the host hands work to
  the device and returns; a piece of work begins only when all the semaphores it waits
  on are signaled, which unsignals them, and signals its semaphores when it ends.
  Nothing else orders the work: any pending piece whose semaphores are signaled may
  begin, on either queue, whatever was submitted before it.
\<close>

datatype work =
    Batch VkQueue VkSubmitInfo
  | ImageAcquire VkSemaphore
  | PresentImage VkSemaphore

fun waitsOf :: "work \<Rightarrow> VkSemaphore list" where
  "waitsOf (Batch q si) = pWaitSemaphores si"
| "waitsOf (ImageAcquire s) = []"
| "waitsOf (PresentImage s) = [s]"

fun signalsOf :: "work \<Rightarrow> VkSemaphore list" where
  "signalsOf (Batch q si) = pSignalSemaphores si"
| "signalsOf (ImageAcquire s) = [s]"
| "signalsOf (PresentImage s) = []"

fun onQueue :: "VkQueue \<Rightarrow> work \<Rightarrow> bool" where
  "onQueue q (Batch q' si) = (q = q')"
| "onQueue q w = False"

text \<open>
  The compute command buffer writes the shared particle buffer (both dispatches); the
  draw command buffer reads it as the vertex buffer.
\<close>

datatype access = WriteAccess | ReadAccess

fun bufferAccess :: "work \<Rightarrow> access option" where
  "bufferAccess (Batch q si) =
     (if compute_commandBuffer \<in> set (pCommandBuffers si) then Some WriteAccess
      else if drawCmdBuffers_current \<in> set (pCommandBuffers si) then Some ReadAccess
      else None)"
| "bufferAccess w = None"

datatype event = Begins work | Ends work

record device =
  host :: "host_call list"
  pending :: "work list"
  running :: "work list"
  signaled :: "VkSemaphore set"
  trace :: "event list"

datatype action = HostCall | Begin work | End work

fun hostStep :: "host_call \<Rightarrow> device \<Rightarrow> device option" where
  "hostStep (Memcpy b) s = Some s"
| "hostStep (QueueSubmit q si) s = Some (s\<lparr>pending := pending s @ [Batch q si]\<rparr>)"
| "hostStep (QueueWaitIdle q) s =
     (if list_ex (onQueue q) (pending s @ running s) then None else Some s)"
| "hostStep (AcquireNextImage sem) s = Some (s\<lparr>pending := pending s @ [ImageAcquire sem]\<rparr>)"
| "hostStep (QueuePresent sem) s = Some (s\<lparr>pending := pending s @ [PresentImage sem]\<rparr>)"

text \<open>One step of a schedule; \<open>None\<close> when the action is not enabled.\<close>

fun step :: "action \<Rightarrow> device \<Rightarrow> device option" where
  "step HostCall s =
     (case host s of
        [] \<Rightarrow> None
      | c # rest \<Rightarrow> hostStep c (s\<lparr>host := rest\<rparr>))"
| "step (Begin w) s =
     (if w \<in> set (pending s) \<and> set (waitsOf w) \<subseteq> signaled s
      then Some (s\<lparr>pending := remove1 w (pending s),
                    running := w # running s,
                    signaled := signaled s - set (waitsOf w),
                    trace := trace s @ [Begins w]\<rparr>)
      else None)"
| "step (End w) s =
     (if w \<in> set (running s)
      then Some (s\<lparr>running := remove1 w (running s),
                    signaled := signaled s \<union> set (signalsOf w),
                    trace := trace s @ [Ends w]\<rparr>)
      else None)"

fun run :: "action list \<Rightarrow> device \<Rightarrow> device option" where
  "run [] s = Some s"
| "run (a # as) s = (case step a s of None \<Rightarrow> None | Some s' \<Rightarrow> run as s')"

definition initial :: "nat \<Rightarrow> device" where
  "initial n = \<lparr>host = hostProgram n, pending = [], running = [], signaled = {}, trace = []\<rparr>"

subsection \<open>Write and read windows of the particle buffer\<close>

text \<open>
  A window opens when buffer-touching work begins and closes when it ends.  The
  windows strictly alternate when the events of a trace that touch the buffer read:
  write window opens, closes, read window opens, closes, write window opens, and so on.
\<close>

datatype phase = AwaitCompute | InCompute | AwaitGraphics | InGraphics

fun advance :: "phase \<Rightarrow> event \<Rightarrow> phase option" where
  "advance ph (Begins w) =
     (case bufferAccess w of
        None \<Rightarrow> Some ph
      | Some WriteAccess \<Rightarrow> (if ph = AwaitCompute then Some InCompute else None)
      | Some ReadAccess \<Rightarrow> (if ph = AwaitGraphics then Some InGraphics else None))"
| "advance ph (Ends w) =
     (case bufferAccess w of
        None \<Rightarrow> Some ph
      | Some WriteAccess \<Rightarrow> (if ph = InCompute then Some AwaitGraphics else None)
      | Some ReadAccess \<Rightarrow> (if ph = InGraphics then Some AwaitCompute else None))"

fun windows :: "phase \<Rightarrow> event list \<Rightarrow> phase option" where
  "windows ph [] = Some ph"
| "windows ph (e # es) = (case advance ph e of None \<Rightarrow> None | Some ph' \<Rightarrow> windows ph' es)"

definition strictlyAlternate :: "event list \<Rightarrow> bool" where
  "strictlyAlternate tr = (windows AwaitCompute tr \<noteq> None)"

text \<open>The buffer-touching work in flight.\<close>

definition openWindows :: "device \<Rightarrow> work list" where
  "openWindows s = filter (\<lambda>w. bufferAccess w \<noteq> None) (running s)"

subsection \<open>The invariant of the semaphore hand-over\<close>

definition firstRunWork :: work where
  "firstRunWork = Batch graphicQueue firstRunSubmitInfo"

definition computeWork :: work where
  "computeWork = Batch compute_queue computeSubmitInfo"

definition graphicsWork :: work where
  "graphicsWork = Batch graphicQueue submitInfo"

definition knownWork :: "work \<Rightarrow> bool" where
  "knownWork w =
     (w = firstRunWork \<or> w = computeWork \<or> w = graphicsWork \<or>
      w = ImageAcquire presentComplete \<or> w = PresentImage renderComplete)"

definition knownCall :: "host_call \<Rightarrow> bool" where
  "knownCall c =
     (c = QueueSubmit graphicQueue firstRunSubmitInfo \<or> c = QueueWaitIdle graphicQueue \<or>
      c = Memcpy compute_uniformBuffer \<or> c = Memcpy graphics_uniformBuffer \<or>
      c = QueueSubmit compute_queue computeSubmitInfo \<or>
      c = AcquireNextImage presentComplete \<or>
      c = QueueSubmit graphicQueue submitInfo \<or> c = QueuePresent renderComplete)"

text \<open>
  The hand-over token: it is the first-run signal not yet delivered, a signaled
  \<open>graphics.semaphore\<close>, the compute work in flight, a signaled \<open>compute.semaphore\<close>,
  or the graphics work in flight.
\<close>

definition tokens :: "device \<Rightarrow> nat" where
  "tokens s =
     count_list (host s) (QueueSubmit graphicQueue firstRunSubmitInfo) +
     count_list (pending s) firstRunWork + count_list (running s) firstRunWork +
     (if graphics_semaphore \<in> signaled s then 1 else 0) +
     count_list (running s) computeWork +
     (if compute_semaphore \<in> signaled s then 1 else 0) +
     count_list (running s) graphicsWork"

definition handover :: "device \<Rightarrow> phase \<Rightarrow> bool" where
  "handover s ph =
     (list_all knownCall (host s) \<and> list_all knownWork (pending s) \<and>
      list_all knownWork (running s) \<and> tokens s = 1 \<and>
      (count_list (running s) computeWork = 1) = (ph = InCompute) \<and>
      (compute_semaphore \<in> signaled s) = (ph = AwaitGraphics) \<and>
      (count_list (running s) graphicsWork = 1) = (ph = InGraphics) \<and>
      windows AwaitCompute (trace s) = Some ph)"

subsection \<open>An example schedule\<close>

text \<open>
  One way in which the device may run a host program of two frames: the first-run
  signal is delivered, the first frame's compute and graphics work run one after the
  other while the host goes on submitting, and the second frame's compute work begins.
\<close>

definition exampleSchedule :: "action list" where
  "exampleSchedule =
     [HostCall, Begin firstRunWork, End firstRunWork, HostCall,
      HostCall, HostCall, HostCall, Begin computeWork, HostCall,
      Begin (ImageAcquire presentComplete), HostCall, HostCall,
      End (ImageAcquire presentComplete), End computeWork, Begin graphicsWork,
      HostCall, HostCall, HostCall, End graphicsWork, Begin computeWork,
      Begin (PresentImage renderComplete)]"

fun touchesBuffer :: "event \<Rightarrow> bool" where
  "touchesBuffer (Begins w) = (bufferAccess w \<noteq> None)"
| "touchesBuffer (Ends w) = (bufferAccess w \<noteq> None)"

section \<open>Properties of the recorded command buffers\<close>

lemma allBarriers_copyCmd:
  "allBarriers (copyCmd qf_g qf_c) =
     (if qf_g \<noteq> qf_c
      then [\<lparr>srcAccessMask = VK_ACCESS_VERTEX_ATTRIBUTE_READ_BIT, dstAccessMask = 0,
              srcQueueFamilyIndex = qf_g, dstQueueFamilyIndex = qf_c, buffer = StorageBuffer\<rparr>]
      else [])"
  by (simp add: allBarriers_def copyCmd_def buffer_barrier_def)

lemma allBarriers_compute:
  "allBarriers (buildComputeCommandBuffer qf_g qf_c numParticles) =
     (if qf_g \<noteq> qf_c
      then [\<lparr>srcAccessMask = 0, dstAccessMask = VK_ACCESS_SHADER_WRITE_BIT,
              srcQueueFamilyIndex = qf_g, dstQueueFamilyIndex = qf_c, buffer = StorageBuffer\<rparr>,
            \<lparr>srcAccessMask = VK_ACCESS_SHADER_WRITE_BIT,
              dstAccessMask = VK_ACCESS_SHADER_READ_BIT,
              srcQueueFamilyIndex = VK_QUEUE_FAMILY_IGNORED,
              dstQueueFamilyIndex = VK_QUEUE_FAMILY_IGNORED, buffer = StorageBuffer\<rparr>,
            \<lparr>srcAccessMask = VK_ACCESS_SHADER_WRITE_BIT, dstAccessMask = 0,
              srcQueueFamilyIndex = qf_c, dstQueueFamilyIndex = qf_g, buffer = StorageBuffer\<rparr>]
      else [\<lparr>srcAccessMask = VK_ACCESS_SHADER_WRITE_BIT,
              dstAccessMask = VK_ACCESS_SHADER_READ_BIT,
              srcQueueFamilyIndex = VK_QUEUE_FAMILY_IGNORED,
              dstQueueFamilyIndex = VK_QUEUE_FAMILY_IGNORED, buffer = StorageBuffer\<rparr>])"
  by (simp add: allBarriers_def buildComputeCommandBuffer_def toCpmputeBufferBarrier_def
      secondComputePassBufferBarrier_def computeToGraphicBufferBarrier_def)

lemma allBarriers_draw:
  "allBarriers (drawCmdBuffer qf_g qf_c numParticles i) =
     (if qf_g \<noteq> qf_c
      then [\<lparr>srcAccessMask = 0, dstAccessMask = VK_ACCESS_VERTEX_ATTRIBUTE_READ_BIT,
              srcQueueFamilyIndex = qf_c, dstQueueFamilyIndex = qf_g, buffer = StorageBuffer\<rparr>,
            \<lparr>srcAccessMask = VK_ACCESS_VERTEX_ATTRIBUTE_READ_BIT, dstAccessMask = 0,
              srcQueueFamilyIndex = qf_g, dstQueueFamilyIndex = qf_c, buffer = StorageBuffer\<rparr>]
      else [])"
  by (simp add: allBarriers_def drawCmdBuffer_def bufferBarrier_acquire_def
      bufferBarrier_release_def)

lemma emitsBarrier_copyCmd: "emitsBarrier (copyCmd qf_g qf_c) = (qf_g \<noteq> qf_c)"
  by (auto simp: emitsBarrier_def allBarriers_copyCmd namesQueueFamily_def)

lemma emitsBarrier_compute:
  "emitsBarrier (buildComputeCommandBuffer qf_g qf_c numParticles) = (qf_g \<noteq> qf_c)"
  by (auto simp: emitsBarrier_def allBarriers_compute namesQueueFamily_def)

lemma emitsBarrier_draw:
  "emitsBarrier (drawCmdBuffer qf_g qf_c numParticles i) = (qf_g \<noteq> qf_c)"
  by (auto simp: emitsBarrier_def allBarriers_draw namesQueueFamily_def)

lemma nth_drawCmdBuffers:
  "i < n \<Longrightarrow> buildCommandBuffersForMainRendering qf_g qf_c numParticles n ! i =
     drawCmdBuffer qf_g qf_c numParticles i"
  by (simp add: buildCommandBuffersForMainRendering_def)

lemma dispatch_counts:
  "dispatchGroupCounts (buildComputeCommandBuffer qf_g qf_c n) = [n div 256, n div 256]"
  by (simp add: dispatchGroupCounts_def buildComputeCommandBuffer_def)

text \<open>
  Claim C2.  For every pair of graphics and compute queue-family indices, each
  hand-over barrier is recorded if and only if the two indices differ.  The upload
  command buffer, the compute command buffer and each of the \<open>n\<close> draw command buffers
  (all \<open>n\<close> are recorded) emit a barrier that names a queue family exactly when
  \<open>qf_g \<noteq> qf_c\<close>.  When the indices differ the barriers recorded are exactly the
  upload-time release; the compute acquire, the barrier between the two dispatches and
  the compute release; the graphics acquire and release.  When they are equal no
  barrier at all is recorded in the upload and draw command buffers, and none but the
  barrier between the two dispatches in the compute command buffer.
\<close>

theorem barriers_iff_families_differ:
  "emitsBarrier (copyCmd qf_g qf_c) = (qf_g \<noteq> qf_c) \<and>
   emitsBarrier (buildComputeCommandBuffer qf_g qf_c numParticles) = (qf_g \<noteq> qf_c) \<and>
   length (buildCommandBuffersForMainRendering qf_g qf_c numParticles n) = n \<and>
   (\<forall>i < n. emitsBarrier (buildCommandBuffersForMainRendering qf_g qf_c numParticles n ! i) =
      (qf_g \<noteq> qf_c)) \<and>
   allBarriers (copyCmd qf_g qf_c) =
     (if qf_g \<noteq> qf_c
      then [\<lparr>srcAccessMask = VK_ACCESS_VERTEX_ATTRIBUTE_READ_BIT, dstAccessMask = 0,
              srcQueueFamilyIndex = qf_g, dstQueueFamilyIndex = qf_c, buffer = StorageBuffer\<rparr>]
      else []) \<and>
   allBarriers (buildComputeCommandBuffer qf_g qf_c numParticles) =
     (if qf_g \<noteq> qf_c
      then [\<lparr>srcAccessMask = 0, dstAccessMask = VK_ACCESS_SHADER_WRITE_BIT,
              srcQueueFamilyIndex = qf_g, dstQueueFamilyIndex = qf_c, buffer = StorageBuffer\<rparr>,
            \<lparr>srcAccessMask = VK_ACCESS_SHADER_WRITE_BIT,
              dstAccessMask = VK_ACCESS_SHADER_READ_BIT,
              srcQueueFamilyIndex = VK_QUEUE_FAMILY_IGNORED,
              dstQueueFamilyIndex = VK_QUEUE_FAMILY_IGNORED, buffer = StorageBuffer\<rparr>,
            \<lparr>srcAccessMask = VK_ACCESS_SHADER_WRITE_BIT, dstAccessMask = 0,
              srcQueueFamilyIndex = qf_c, dstQueueFamilyIndex = qf_g, buffer = StorageBuffer\<rparr>]
      else [\<lparr>srcAccessMask = VK_ACCESS_SHADER_WRITE_BIT,
              dstAccessMask = VK_ACCESS_SHADER_READ_BIT,
              srcQueueFamilyIndex = VK_QUEUE_FAMILY_IGNORED,
              dstQueueFamilyIndex = VK_QUEUE_FAMILY_IGNORED, buffer = StorageBuffer\<rparr>]) \<and>
   (\<forall>i < n. allBarriers (buildCommandBuffersForMainRendering qf_g qf_c numParticles n ! i) =
      (if qf_g \<noteq> qf_c
       then [\<lparr>srcAccessMask = 0, dstAccessMask = VK_ACCESS_VERTEX_ATTRIBUTE_READ_BIT,
               srcQueueFamilyIndex = qf_c, dstQueueFamilyIndex = qf_g, buffer = StorageBuffer\<rparr>,
             \<lparr>srcAccessMask = VK_ACCESS_VERTEX_ATTRIBUTE_READ_BIT, dstAccessMask = 0,
               srcQueueFamilyIndex = qf_g, dstQueueFamilyIndex = qf_c, buffer = StorageBuffer\<rparr>]
       else []))"
proof -
  have len: "length (buildCommandBuffersForMainRendering qf_g qf_c numParticles n) = n"
    by (simp add: buildCommandBuffersForMainRendering_def)
  have e: "\<forall>i < n. emitsBarrier (buildCommandBuffersForMainRendering qf_g qf_c numParticles n ! i) =
      (qf_g \<noteq> qf_c)"
    by (simp add: nth_drawCmdBuffers emitsBarrier_draw)
  have a: "\<forall>i < n. allBarriers (buildCommandBuffersForMainRendering qf_g qf_c numParticles n ! i) =
      (if qf_g \<noteq> qf_c
       then [\<lparr>srcAccessMask = 0, dstAccessMask = VK_ACCESS_VERTEX_ATTRIBUTE_READ_BIT,
               srcQueueFamilyIndex = qf_c, dstQueueFamilyIndex = qf_g, buffer = StorageBuffer\<rparr>,
             \<lparr>srcAccessMask = VK_ACCESS_VERTEX_ATTRIBUTE_READ_BIT, dstAccessMask = 0,
               srcQueueFamilyIndex = qf_g, dstQueueFamilyIndex = qf_c, buffer = StorageBuffer\<rparr>]
       else [])"
    by (simp add: nth_drawCmdBuffers allBarriers_draw)
  from len e a emitsBarrier_copyCmd [of qf_g qf_c]
    emitsBarrier_compute [of qf_g qf_c numParticles]
    allBarriers_copyCmd [of qf_g qf_c] allBarriers_compute [of qf_g qf_c numParticles]
  show ?thesis by (intro conjI)
qed

text \<open>
  The property at the families 0 and 1, and at the single family 2, with two draw
  command buffers.
\<close>

theorem barriers_iff_families_differ_witness:
  "emitsBarrier (copyCmd 0 1) \<and> \<not> emitsBarrier (copyCmd 2 2) \<and>
   emitsBarrier (buildComputeCommandBuffer 0 1 24576) \<and>
   \<not> emitsBarrier (buildComputeCommandBuffer 2 2 24576) \<and>
   length (buildCommandBuffersForMainRendering 0 1 24576 2) = 2 \<and>
   emitsBarrier (buildCommandBuffersForMainRendering 0 1 24576 2 ! 0) \<and>
   emitsBarrier (buildCommandBuffersForMainRendering 0 1 24576 2 ! 1) \<and>
   \<not> emitsBarrier (buildCommandBuffersForMainRendering 2 2 24576 2 ! 1) \<and>
   allBarriers (copyCmd 2 2) = [] \<and>
   allBarriers (buildComputeCommandBuffer 2 2 24576) = [secondComputePassBufferBarrier] \<and>
   allBarriers (buildCommandBuffersForMainRendering 2 2 24576 2 ! 1) = [] \<and>
   allBarriers (buildCommandBuffersForMainRendering 0 1 24576 2 ! 1) =
     [bufferBarrier_acquire 0 1, bufferBarrier_release 0 1]"
proof -
  note d = barriers_iff_families_differ [of 0 1 24576 2]
  note s = barriers_iff_families_differ [of 2 2 24576 2]
  have i: "(0::nat) < 2" "(1::nat) < 2" by simp_all
  from d have d4: "\<forall>i < 2. emitsBarrier (buildCommandBuffersForMainRendering 0 1 24576 2 ! i) =
      ((0::uint32_t) \<noteq> 1)" by blast
  from s have s4: "\<forall>i < 2. emitsBarrier (buildCommandBuffersForMainRendering 2 2 24576 2 ! i) =
      ((2::uint32_t) \<noteq> 2)" by blast
  from d have d7: "\<forall>i < 2. allBarriers (buildCommandBuffersForMainRendering 0 1 24576 2 ! i) =
      [bufferBarrier_acquire 0 1, bufferBarrier_release 0 1]"
    by (simp add: bufferBarrier_acquire_def bufferBarrier_release_def)
  from s have s7: "\<forall>i < 2. allBarriers (buildCommandBuffersForMainRendering 2 2 24576 2 ! i) = []"
    by simp
  from d s d4 [rule_format, OF i(1)] d4 [rule_format, OF i(2)] s4 [rule_format, OF i(2)]
    d7 [rule_format, OF i(2)] s7 [rule_format, OF i(2)]
  show ?thesis by (simp add: secondComputePassBufferBarrier_def)
qed

text \<open>
  Claim C6.  Whenever the graphics and compute queue families differ, the compute
  command buffer begins with an acquire barrier on the storage buffer (source access
  none, destination access shader-write, from the graphics family to the compute
  family) and ends with a release barrier (source access shader-write, destination
  access none, from the compute family back to the graphics family); both dispatches
  lie between the two, and nothing between them transfers ownership.
\<close>

theorem compute_acquire_release:
  assumes "qf_g \<noteq> qf_c"
  shows "\<exists>mid. buildComputeCommandBuffer qf_g qf_c numParticles =
           CmdPipelineBarrier TOP_OF_PIPE COMPUTE_SHADER
             [\<lparr>srcAccessMask = 0, dstAccessMask = VK_ACCESS_SHADER_WRITE_BIT,
               srcQueueFamilyIndex = qf_g, dstQueueFamilyIndex = qf_c, buffer = StorageBuffer\<rparr>]
           # mid @
           [CmdPipelineBarrier COMPUTE_SHADER BOTTOM_OF_PIPE
             [\<lparr>srcAccessMask = VK_ACCESS_SHADER_WRITE_BIT, dstAccessMask = 0,
               srcQueueFamilyIndex = qf_c, dstQueueFamilyIndex = qf_g, buffer = StorageBuffer\<rparr>]] \<and>
         length (filter isDispatch mid) = 2 \<and>
         length (filter isDispatch (buildComputeCommandBuffer qf_g qf_c numParticles)) = 2 \<and>
         ownershipBarriers mid = []"
  using assms
  by (simp add: buildComputeCommandBuffer_def toCpmputeBufferBarrier_def
      computeToGraphicBufferBarrier_def ownershipBarriers_def isOwnershipTransfer_def
      secondComputePassBufferBarrier_def)

text \<open>The compute command buffer for the families 0 and 1 and 24576 particles.\<close>

theorem compute_acquire_release_witness:
  "(0::uint32_t) \<noteq> 1 \<and>
   hd (buildComputeCommandBuffer 0 1 24576) =
     CmdPipelineBarrier TOP_OF_PIPE COMPUTE_SHADER
       [\<lparr>srcAccessMask = 0, dstAccessMask = 0x40,
         srcQueueFamilyIndex = 0, dstQueueFamilyIndex = 1, buffer = StorageBuffer\<rparr>] \<and>
   last (buildComputeCommandBuffer 0 1 24576) =
     CmdPipelineBarrier COMPUTE_SHADER BOTTOM_OF_PIPE
       [\<lparr>srcAccessMask = 0x40, dstAccessMask = 0,
         srcQueueFamilyIndex = 1, dstQueueFamilyIndex = 0, buffer = StorageBuffer\<rparr>] \<and>
   length (filter isDispatch (buildComputeCommandBuffer 0 1 24576)) = 2"
proof -
  have ne: "(0::uint32_t) \<noteq> 1" by simp
  from compute_acquire_release [OF ne, of 24576] show ?thesis
    by (auto simp: VK_ACCESS_SHADER_WRITE_BIT_def)
qed

subsection \<open>The workgroup count\<close>

lemma ceilDiv_cases: "0 < d \<Longrightarrow> ceilDiv n d = (if d dvd n then n div d else n div d + 1)"
proof -
  assume d: "0 < d"
  have "\<lceil>real n / real d\<rceil> = - (- int n div int d)"
    using ceiling_divide_eq_div [of "int n" "int d"] by simp
  also have "\<dots> = (if d dvd n then int (n div d) else int (n div d) + 1)"
  proof (cases "d dvd n")
    case True
    then have "int d dvd int n" by simp
    then have "- int n div int d = - (int n div int d)" by (rule dvd_neg_div)
    with True show ?thesis by (simp add: zdiv_int)
  next
    case False
    then have "\<not> int d dvd int n" by simp
    then have "- int n div int d = - (int n div int d) - 1"
      using d by (simp add: zdiv_zminus1_eq_if dvd_eq_mod_eq_0)
    with False show ?thesis by (simp add: zdiv_int)
  qed
  finally have "\<lceil>real n / real d\<rceil> = (if d dvd n then int (n div d) else int (n div d) + 1)" .
  then show ?thesis unfolding ceilDiv_def by (auto simp: nat_add_distrib)
qed

text \<open>
  With 257 particles both dispatches are issued with one workgroup, while the
  rounded-up quotient of 257 by 256 is two: the count is not rounded up.
\<close>

theorem dispatch_not_ceil_counterexample:
  "map unat (dispatchGroupCounts (buildComputeCommandBuffer 0 0 257)) = [1, 1] \<and>
   ceilDiv (unat (257 :: uint32_t)) 256 = 2 \<and>
   map unat (dispatchGroupCounts (buildComputeCommandBuffer 0 0 257)) \<noteq>
     [ceilDiv (unat (257 :: uint32_t)) 256, ceilDiv (unat (257 :: uint32_t)) 256]"
  by (simp add: dispatch_counts ceilDiv_cases)

text \<open>
  Claim C3, as the code has it.  For every particle count, each of the two compute
  dispatches is issued with the workgroup count \<open>numParticles / 256\<close> rounded down
  (unsigned integer division).  That count equals the rounded-up quotient exactly when
  the particle count is a multiple of 256; otherwise it is one less.
\<close>

theorem dispatch_floor:
  "map unat (dispatchGroupCounts (buildComputeCommandBuffer qf_g qf_c numParticles)) =
     [unat numParticles div 256, unat numParticles div 256] \<and>
   (unat numParticles div 256 = ceilDiv (unat numParticles) 256) = (256 dvd unat numParticles) \<and>
   (\<not> 256 dvd unat numParticles \<longrightarrow>
      unat numParticles div 256 + 1 = ceilDiv (unat numParticles) 256)"
  by (simp add: dispatch_counts ceilDiv_cases unat_div)

text \<open>The counts for 24576 particles (a multiple of 256) and for 24577 particles.\<close>

theorem dispatch_floor_witness:
  "map unat (dispatchGroupCounts (buildComputeCommandBuffer 0 1 24576)) = [96, 96] \<and>
   ceilDiv 24576 256 = 96 \<and>
   map unat (dispatchGroupCounts (buildComputeCommandBuffer 0 1 24577)) = [96, 96] \<and>
   ceilDiv 24577 256 = 97"
  using dispatch_floor [of 0 1 24576] dispatch_floor [of 0 1 24577]
  by simp

section \<open>Properties of the particle initializer\<close>

subsection \<open>Arithmetic on float values\<close>

lemma fadd_simps [simp]:
  "fadd (Some x) (Some y) = Some (x + y)" "fadd None b = None" "fadd a None = None"
  by (simp_all add: fadd_def split: option.splits)

lemma fsub_simps [simp]:
  "fsub (Some x) (Some y) = Some (x - y)" "fsub None b = None" "fsub a None = None"
  by (simp_all add: fsub_def split: option.splits)

lemma fmul_simps [simp]:
  "fmul (Some x) (Some y) = Some (x * y)" "fmul None b = None" "fmul a None = None"
  by (simp_all add: fmul_def split: option.splits)

lemma fdiv_simps [simp]:
  "fdiv (Some x) (Some y) = (if y = 0 then None else Some (x / y))"
  "fdiv None b = None" "fdiv a None = None"
  by (simp_all add: fdiv_def split: option.splits)

lemma fsqrt_simps [simp]:
  "fsqrt (Some x) = (if x < 0 then None else Some (sqrt x))" "fsqrt None = None"
  by (simp_all add: fsqrt_def)

subsection \<open>What the two loops compute\<close>

lemma forJ_append:
  "forJ rnd ord atts ppa i (xs @ ys) st =
     (case forJ rnd ord atts ppa i xs st of None \<Rightarrow> None | Some st' \<Rightarrow> forJ rnd ord atts ppa i ys st')"
proof (induction xs arbitrary: st)
  case Nil
  show ?case by simp
next
  case (Cons j js)
  show ?case by (cases st) (simp add: Cons.IH Let_def)
qed

lemma forI_append:
  "forI rnd ord atts ppa (xs @ ys) st =
     (case forI rnd ord atts ppa xs st of None \<Rightarrow> None | Some st' \<Rightarrow> forI rnd ord atts ppa ys st')"
  by (induction xs arbitrary: st) (simp_all split: option.splits)

lemma snd_loopBody: "snd (loopBody rnd ord atts i j k) = (if j = 0 then k else k + 7)"
  by (simp add: loopBody_def Let_def)

text \<open>
  The inner loop, run from draw number \<open>k\<close> on a buffer that has room for group \<open>i\<close>,
  never indexes past the end, overwrites exactly the slots of group \<open>i\<close> and leaves the
  others as they were.
\<close>

lemma forJ_upt:
  assumes "i * ppa + m \<le> length buf" and "length buf < 2 ^ 32"
  shows "\<exists>buf'. forJ rnd ord atts ppa i [0..<m] (buf, k) = Some (buf', k + 7 * (m - 1)) \<and>
           length buf' = length buf \<and>
           (\<forall>idx < length buf. buf' ! idx =
              (if i * ppa \<le> idx \<and> idx < i * ppa + m
               then fst (loopBody rnd ord atts i (idx - i * ppa) (k + 7 * (idx - i * ppa - 1)))
               else buf ! idx))"
  using assms
proof (induction m)
  case 0
  then show ?case by auto
next
  case (Suc m)
  then obtain buf' where run: "forJ rnd ord atts ppa i [0..<m] (buf, k) = Some (buf', k + 7 * (m - 1))"
    and len: "length buf' = length buf"
    and nth: "\<forall>idx < length buf. buf' ! idx =
              (if i * ppa \<le> idx \<and> idx < i * ppa + m
               then fst (loopBody rnd ord atts i (idx - i * ppa) (k + 7 * (idx - i * ppa - 1)))
               else buf ! idx)"
    by auto
  from Suc.prems have idx: "(i * ppa + m) mod 2 ^ 32 = i * ppa + m" "i * ppa + m < length buf'"
    by (simp_all add: len)
  let ?p = "fst (loopBody rnd ord atts i m (k + 7 * (m - 1)))"
  have k': "snd (loopBody rnd ord atts i m (k + 7 * (m - 1))) = k + 7 * (Suc m - 1)"
    by (cases m) (simp_all add: snd_loopBody)
  have "forJ rnd ord atts ppa i [0..<Suc m] (buf, k) = Some (buf'[i * ppa + m := ?p], k + 7 * (Suc m - 1))"
    using idx k' by (simp add: forJ_append run del: mod_less)
  moreover have "buf'[i * ppa + m := ?p] ! idx =
              (if i * ppa \<le> idx \<and> idx < i * ppa + Suc m
               then fst (loopBody rnd ord atts i (idx - i * ppa) (k + 7 * (idx - i * ppa - 1)))
               else buf ! idx)" if lt: "idx < length buf" for idx
  proof (cases "idx = i * ppa + m")
    case True
    then show ?thesis using idx(2) by simp
  next
    case False
    then have "buf'[i * ppa + m := ?p] ! idx = buf' ! idx" by simp
    also have "\<dots> = (if i * ppa \<le> idx \<and> idx < i * ppa + m
               then fst (loopBody rnd ord atts i (idx - i * ppa) (k + 7 * (idx - i * ppa - 1)))
               else buf ! idx)"
      using nth lt by blast
    also have "(i * ppa \<le> idx \<and> idx < i * ppa + m) = (i * ppa \<le> idx \<and> idx < i * ppa + Suc m)"
      using False by auto
    finally show ?thesis .
  qed
  ultimately show ?case using len by simp
qed

lemma forI_upt:
  assumes "n * ppa \<le> length buf" and "length buf < 2 ^ 32"
  shows "\<exists>buf'. forI rnd ord atts ppa [0..<n] (buf, k) = Some (buf', k + 7 * (n * (ppa - 1))) \<and>
           length buf' = length buf \<and>
           (\<forall>idx < length buf. buf' ! idx =
              (if idx < n * ppa
               then fst (loopBody rnd ord atts (idx div ppa) (idx mod ppa)
                      (k + drawsBefore ppa (idx div ppa) (idx mod ppa)))
               else buf ! idx))"
  using assms
proof (induction n)
  case 0
  then show ?case by simp
next
  case (Suc n)
  then obtain buf1 where run: "forI rnd ord atts ppa [0..<n] (buf, k) = Some (buf1, k + 7 * (n * (ppa - 1)))"
    and len: "length buf1 = length buf"
    and nth: "\<forall>idx < length buf. buf1 ! idx =
              (if idx < n * ppa
               then fst (loopBody rnd ord atts (idx div ppa) (idx mod ppa)
                      (k + drawsBefore ppa (idx div ppa) (idx mod ppa)))
               else buf ! idx)"
    by auto
  from Suc.prems have "n * ppa + ppa \<le> length buf1" "length buf1 < 2 ^ 32"
    by (simp_all add: len)
  from forJ_upt [OF this, of rnd ord atts "k + 7 * (n * (ppa - 1))"]
  obtain buf2 where runJ: "forJ rnd ord atts ppa n [0..<ppa] (buf1, k + 7 * (n * (ppa - 1)))
        = Some (buf2, k + 7 * (n * (ppa - 1)) + 7 * (ppa - 1))"
    and len2: "length buf2 = length buf1"
    and nth2: "\<forall>idx < length buf1. buf2 ! idx =
              (if n * ppa \<le> idx \<and> idx < n * ppa + ppa
               then fst (loopBody rnd ord atts n (idx - n * ppa)
                      (k + 7 * (n * (ppa - 1)) + 7 * (idx - n * ppa - 1)))
               else buf1 ! idx)"
    by auto
  have keq: "k + 7 * (n * (ppa - 1)) + 7 * (ppa - 1) = k + 7 * (Suc n * (ppa - 1))"
    by simp
  have "forI rnd ord atts ppa [0..<Suc n] (buf, k)
          = forI rnd ord atts ppa [n] (buf1, k + 7 * (n * (ppa - 1)))"
    by (simp add: forI_append run)
  also have "\<dots> = Some (buf2, k + 7 * (n * (ppa - 1)) + 7 * (ppa - 1))"
    using runJ by simp
  finally have "forI rnd ord atts ppa [0..<Suc n] (buf, k) = Some (buf2, k + 7 * (Suc n * (ppa - 1)))"
    unfolding keq .
  moreover have "buf2 ! idx =
              (if idx < Suc n * ppa
               then fst (loopBody rnd ord atts (idx div ppa) (idx mod ppa)
                      (k + drawsBefore ppa (idx div ppa) (idx mod ppa)))
               else buf ! idx)" if lt: "idx < length buf" for idx
  proof (cases "n * ppa \<le> idx \<and> idx < n * ppa + ppa")
    case True
    then have d: "idx div ppa = n" and m: "idx mod ppa = idx - n * ppa"
      by (auto simp: div_nat_eqI mod_nat_eqI le_imp_diff_is_add mult.commute)
    have keq2: "k + 7 * (n * (ppa - 1)) + 7 * (idx - n * ppa - 1)
                 = k + drawsBefore ppa n (idx - n * ppa)"
      by (simp add: drawsBefore_def add_mult_distrib2)
    from True lt len nth2
    have "buf2 ! idx = fst (loopBody rnd ord atts n (idx - n * ppa)
                      (k + 7 * (n * (ppa - 1)) + 7 * (idx - n * ppa - 1)))"
      by simp
    then show ?thesis
      using True unfolding keq2 d m by simp
  next
    case False
    with lt show ?thesis using nth2 nth len by auto
  qed
  ultimately show ?case using len len2 by simp
qed

lemma unat_sizes:
  assumes "length atts < 2 ^ 32" and "length atts * ppa < 2 ^ 32"
  shows "unat (ATTRACTORS_SIZE atts) = length atts"
    and "unat (numParticlesOf atts ppa) = length atts * ppa"
proof -
  show a: "unat (ATTRACTORS_SIZE atts) = length atts"
    using assms(1) by (simp add: ATTRACTORS_SIZE_def unat_of_nat)
  have "unat (numParticlesOf atts ppa) = (length atts * (ppa mod 2 ^ 32)) mod 2 ^ 32"
    using a by (simp add: numParticlesOf_def unat_word_ariths unat_of_nat)
  also have "\<dots> = (length atts * ppa) mod 2 ^ 32"
    by (rule mod_mult_right_eq)
  finally show "unat (numParticlesOf atts ppa) = length atts * ppa"
    using assms(2) by simp
qed

text \<open>
  When neither the attractor count nor the particle count overflows 32 bits, the
  initializer returns, and the vector it returns holds \<open>particleAt\<close> at every index,
  whatever the elements were before.
\<close>

lemma particleBuffer_eq:
  assumes "length atts < 2 ^ 32" and "length atts * ppa < 2 ^ 32"
  shows "particleBuffer rnd ord atts ppa d = Some (map (particleAt rnd ord atts ppa) [0..<length atts * ppa])"
proof -
  let ?N = "length atts * ppa"
  have "?N \<le> length (replicate ?N d)" "length (replicate ?N d) < 2 ^ 32"
    using assms by simp_all
  from forI_upt [OF this, of rnd ord atts 0]
  obtain buf' k' where run: "forI rnd ord atts ppa [0..<length atts] (replicate ?N d, 0) = Some (buf', k')"
    and len: "length buf' = ?N"
    and nth: "\<forall>idx < ?N. buf' ! idx = particleAt rnd ord atts ppa idx"
    by (auto simp: particleAt_def)
  have "buf' = map (particleAt rnd ord atts ppa) [0..<?N]"
    using len nth by (intro nth_equalityI) simp_all
  with run show ?thesis
    by (simp add: particleBuffer_def unat_sizes [OF assms])
qed

lemma config_sizes:
  "length attractors = 6" "length attractors < 2 ^ 32"
  "length attractors * PARTICLES_PER_ATTRACTOR a < 2 ^ 32" "0 < PARTICLES_PER_ATTRACTOR a"
  by (simp_all add: attractors_def PARTICLES_PER_ATTRACTOR_def)

lemma particleAt_center:
  "idx mod ppa = 0 \<Longrightarrow> particleAt rnd ord atts ppa idx =
     \<lparr>pos = vec4_of (vec3_scale (atts ! (idx div ppa)) (Some 1.5)) (Some 90000),
      vel = Vec4 (Some 0) (Some 0) (Some 0)
              (fdiv (fmul (Some (real (idx div ppa))) (Some 1))
                 (Some (real (unat (ATTRACTORS_SIZE atts)))))\<rparr>"
  by (simp add: particleAt_def loopBody_def centerParticle_def)

lemma particleAt_gradient:
  "gradientIndex (particleAt rnd ord atts ppa idx) =
     fdiv (fmul (Some (real (idx div ppa))) (Some 1)) (Some (real (unat (ATTRACTORS_SIZE atts))))"
  by (simp add: particleAt_def loopBody_def gradientIndex_def Let_def)

lemma particleAt_mass:
  "mass (particleAt rnd ord atts ppa idx) =
     (if idx mod ppa = 0 then Some 90000
      else Some ((rnd (drawsBefore ppa (idx div ppa) (idx mod ppa) + 6) * 0.5 + 0.5) * 75))"
  by (simp add: particleAt_def loopBody_def mass_def Let_def centerParticle_def orbitParticle_def
      vec4_of_def)

lemma mass_pos_iff: "(0 < (r * 0.5 + 0.5) * 75) = (- 1 < (r::real))"
  by (simp add: zero_less_mult_iff) linarith

lemma gids: "globalInvocationIDs g = [0..<g * workgroupSize]"
proof (induction g)
  case 0
  show ?case by (simp add: globalInvocationIDs_def)
next
  case (Suc g)
  have "map (\<lambda>l. g * workgroupSize + l) [0..<workgroupSize]
          = [g * workgroupSize..<g * workgroupSize + workgroupSize]"
    using map_add_upt [of "g * workgroupSize" workgroupSize] by (simp add: add.commute)
  moreover have "[0..<g * workgroupSize + workgroupSize]
          = [0..<g * workgroupSize] @ [g * workgroupSize..<g * workgroupSize + workgroupSize]"
    by (rule upt_add_eq_append) simp
  ultimately show ?case
    using Suc by (simp add: globalInvocationIDs_def add.commute)
qed

subsection \<open>Buffer length and group centres\<close>

text \<open>
  Claim C8.  The initializer returns a particle buffer whose length is the attractor
  count times the particles per attractor (and equals \<open>numParticles\<close>), and the first
  particle of every attractor group has velocity zero, so velocity magnitude 0.  This
  holds for every attractor list and particle count per attractor that does not
  overflow 32 bits, and so for the configured list with either value of
  \<open>PARTICLES_PER_ATTRACTOR\<close>, for every random source and order of the draws.
\<close>

theorem buffer_length_and_centres:
  assumes "length atts < 2 ^ 32" and "length atts * ppa < 2 ^ 32" and "0 < ppa"
  shows "\<exists>buf. particleBuffer rnd ord atts ppa d = Some buf \<and>
           length buf = length atts * ppa \<and>
           length buf = unat (numParticlesOf atts ppa) \<and>
           (\<forall>i < length atts. velocity (buf ! (i * ppa)) = vec3f 0 0 0 \<and>
                              glm_length (velocity (buf ! (i * ppa))) = Some 0)"
proof -
  let ?buf = "map (particleAt rnd ord atts ppa) [0..<length atts * ppa]"
  have run: "particleBuffer rnd ord atts ppa d = Some ?buf"
    using assms(1,2) by (rule particleBuffer_eq)
  have zero: "glm_length (vec3f 0 0 0) = Some 0"
    by (simp add: glm_length_def glm_dot_def vec3f_def)
  have "velocity (?buf ! (i * ppa)) = vec3f 0 0 0 \<and>
        glm_length (velocity (?buf ! (i * ppa))) = Some 0"
    if "i < length atts" for i
  proof -
    from that assms(3) have "i * ppa < length atts * ppa" by simp
    then have "?buf ! (i * ppa) = particleAt rnd ord atts ppa (i * ppa)" by simp
    then have "velocity (?buf ! (i * ppa)) = vec3f 0 0 0"
      by (simp add: particleAt_center velocity_def xyz_def vec3f_def)
    then show ?thesis by (simp only: zero simp_thms)
  qed
  then have "\<forall>i < length atts. velocity (?buf ! (i * ppa)) = vec3f 0 0 0 \<and>
                              glm_length (velocity (?buf ! (i * ppa))) = Some 0"
    by blast
  moreover have "length ?buf = length atts * ppa" by simp
  moreover note run unat_sizes(2) [OF assms(1,2)]
  ultimately show ?thesis
    by (intro exI [of _ ?buf]) (simp only: simp_thms)
qed

text \<open>The configured attractor list with 4096 particles per attractor.\<close>

theorem buffer_length_and_centres_witness:
  "\<exists>buf. particleBuffer (\<lambda>k. 0) (\<lambda>p. p) attractors (PARTICLES_PER_ATTRACTOR False)
            \<lparr>pos = Vec4 (Some 1) (Some 1) (Some 1) (Some 1),
              vel = Vec4 (Some 1) (Some 1) (Some 1) (Some 1)\<rparr> = Some buf \<and>
         length buf = 6 * 4096 \<and> length buf = unat (numParticlesOf attractors 4096) \<and>
         glm_length (velocity (buf ! 0)) = Some 0 \<and>
         glm_length (velocity (buf ! 4096)) = Some 0 \<and>
         glm_length (velocity (buf ! (5 * 4096))) = Some 0"
proof -
  have ppa: "PARTICLES_PER_ATTRACTOR False = 4096"
    by (simp add: PARTICLES_PER_ATTRACTOR_def)
  have "length attractors < 2 ^ 32" "length attractors * 4096 < 2 ^ 32" "(0::nat) < 4096"
    by (simp_all add: attractors_def)
  from buffer_length_and_centres [OF this, of "\<lambda>k. 0" "\<lambda>p. p"
      "\<lparr>pos = Vec4 (Some 1) (Some 1) (Some 1) (Some 1),
        vel = Vec4 (Some 1) (Some 1) (Some 1) (Some 1)\<rparr>"]
  obtain buf where run: "particleBuffer (\<lambda>k. 0) (\<lambda>p. p) attractors 4096
            \<lparr>pos = Vec4 (Some 1) (Some 1) (Some 1) (Some 1),
              vel = Vec4 (Some 1) (Some 1) (Some 1) (Some 1)\<rparr> = Some buf"
    and len: "length buf = length attractors * 4096"
      "length buf = unat (numParticlesOf attractors 4096)"
    and centres: "\<forall>i < length attractors. velocity (buf ! (i * 4096)) = vec3f 0 0 0 \<and>
                              glm_length (velocity (buf ! (i * 4096))) = Some 0"
    by blast
  have six: "length attractors = 6" by (simp add: attractors_def)
  have c: "glm_length (velocity (buf ! (i * 4096))) = Some 0" if "i < 6" for i
    using centres that unfolding six by blast
  from c [of 0] c [of 1] c [of 5] run len show ?thesis
    unfolding six ppa by simp
qed

subsection \<open>Mass and gradient index\<close>

text \<open>
  The part of claim C4 that the code keeps: after initialization every particle's
  gradient index lies in the half-open interval from 0 to 1.  The masses are another
  matter: the first particle of every group has mass 90000, but every other particle
  has the mass \<open>(s * 0.5 + 0.5) * 75\<close> for its draw \<open>s\<close>, which is positive only when
  \<open>s\<close> is greater than -1.
\<close>

lemma mass_and_gradient:
  assumes "length atts < 2 ^ 32" and "length atts * ppa < 2 ^ 32"
  shows "\<exists>buf. particleBuffer rnd ord atts ppa d = Some buf \<and>
           (\<forall>idx < length buf.
              (\<exists>g. gradientIndex (buf ! idx) = Some g \<and> 0 \<le> g \<and> g < 1) \<and>
              (\<exists>m. mass (buf ! idx) = Some m \<and>
                 m = (if idx mod ppa = 0 then 90000
                      else (rnd (drawsBefore ppa (idx div ppa) (idx mod ppa) + 6) * 0.5 + 0.5) * 75) \<and>
                 (0 < m) =
                   (idx mod ppa = 0 \<or>
                    - 1 < rnd (drawsBefore ppa (idx div ppa) (idx mod ppa) + 6))))"
proof -
  let ?N = "length atts * ppa"
  let ?buf = "map (particleAt rnd ord atts ppa) [0..<?N]"
  have run: "particleBuffer rnd ord atts ppa d = Some ?buf"
    using assms by (rule particleBuffer_eq)
  have n: "unat (ATTRACTORS_SIZE atts) = length atts"
    using assms by (rule unat_sizes(1))
  have "(\<exists>g. gradientIndex (?buf ! idx) = Some g \<and> 0 \<le> g \<and> g < 1) \<and>
        (\<exists>m. mass (?buf ! idx) = Some m \<and>
           m = (if idx mod ppa = 0 then 90000
                else (rnd (drawsBefore ppa (idx div ppa) (idx mod ppa) + 6) * 0.5 + 0.5) * 75) \<and>
           (0 < m) =
             (idx mod ppa = 0 \<or> - 1 < rnd (drawsBefore ppa (idx div ppa) (idx mod ppa) + 6)))"
    if lt: "idx < ?N" for idx
  proof -
    from lt have p: "?buf ! idx = particleAt rnd ord atts ppa idx" by simp
    from lt have i: "idx div ppa < length atts"
      by (simp add: less_mult_imp_div_less)
    then have g: "0 \<le> real (idx div ppa) / real (length atts)"
      "real (idx div ppa) / real (length atts) < 1"
      by (simp_all add: divide_less_eq)
    from i have "atts \<noteq> []" by auto
    then have "gradientIndex (particleAt rnd ord atts ppa idx) =
        Some (real (idx div ppa) / real (length atts))"
      by (simp add: particleAt_gradient n)
    with g have G: "\<exists>g. gradientIndex (?buf ! idx) = Some g \<and> 0 \<le> g \<and> g < 1"
      unfolding p by blast
    have M: "\<exists>m. mass (?buf ! idx) = Some m \<and>
           m = (if idx mod ppa = 0 then 90000
                else (rnd (drawsBefore ppa (idx div ppa) (idx mod ppa) + 6) * 0.5 + 0.5) * 75) \<and>
           (0 < m) =
             (idx mod ppa = 0 \<or> - 1 < rnd (drawsBefore ppa (idx div ppa) (idx mod ppa) + 6))"
      unfolding p particleAt_mass using mass_pos_iff
      by (cases "idx mod ppa = 0") simp_all
    from G M show ?thesis ..
  qed
  then have "\<forall>idx < ?N.
        (\<exists>g. gradientIndex (?buf ! idx) = Some g \<and> 0 \<le> g \<and> g < 1) \<and>
        (\<exists>m. mass (?buf ! idx) = Some m \<and>
           m = (if idx mod ppa = 0 then 90000
                else (rnd (drawsBefore ppa (idx div ppa) (idx mod ppa) + 6) * 0.5 + 0.5) * 75) \<and>
           (0 < m) =
             (idx mod ppa = 0 \<or> - 1 < rnd (drawsBefore ppa (idx div ppa) (idx mod ppa) + 6)))"
    by blast
  moreover have "length ?buf = ?N" by simp
  ultimately show ?thesis
    using run by (intro exI [of _ ?buf]) (simp only: simp_thms)
qed

text \<open>
  Claim C4 asks for a mass greater than 0 at every particle.  With the configured
  attractors, 4096 particles per attractor and a random source whose draws are all -3,
  the initializer returns, the particle at index 1 has the mass -75, and so not every
  particle of the buffer has a positive mass, in either order of the draws.
\<close>

theorem mass_not_positive:
  "map_option (\<lambda>buf. mass (buf ! 1))
     (particleBuffer (\<lambda>k. - 3) (\<lambda>p. p) attractors (PARTICLES_PER_ATTRACTOR False)
        \<lparr>pos = Vec4 (Some 0) (Some 0) (Some 0) (Some 0),
          vel = Vec4 (Some 0) (Some 0) (Some 0) (Some 0)\<rparr>) = Some (Some (- 75)) \<and>
   map_option (\<lambda>buf. mass (buf ! 1))
     (particleBuffer (\<lambda>k. - 3) (\<lambda>p. 2 - p) attractors (PARTICLES_PER_ATTRACTOR False)
        \<lparr>pos = Vec4 (Some 0) (Some 0) (Some 0) (Some 0),
          vel = Vec4 (Some 0) (Some 0) (Some 0) (Some 0)\<rparr>) = Some (Some (- 75)) \<and>
   map_option (list_all massPositive)
     (particleBuffer (\<lambda>k. - 3) (\<lambda>p. p) attractors (PARTICLES_PER_ATTRACTOR False)
        \<lparr>pos = Vec4 (Some 0) (Some 0) (Some 0) (Some 0),
          vel = Vec4 (Some 0) (Some 0) (Some 0) (Some 0)\<rparr>) = Some False \<and>
   map_option (list_all massPositive)
     (particleBuffer (\<lambda>k. - 3) (\<lambda>p. 2 - p) attractors (PARTICLES_PER_ATTRACTOR False)
        \<lparr>pos = Vec4 (Some 0) (Some 0) (Some 0) (Some 0),
          vel = Vec4 (Some 0) (Some 0) (Some 0) (Some 0)\<rparr>) = Some False"
proof -
  have m: "mass (particleAt (\<lambda>k. - 3) ord attractors 4096 1) = Some (- 75)" for ord
    by (simp add: particleAt_mass)
  have "\<not> list_all massPositive (map (particleAt (\<lambda>k. - 3) ord attractors 4096) [0..<24576])"
    for ord
  proof
    assume "list_all massPositive (map (particleAt (\<lambda>k. - 3) ord attractors 4096) [0..<24576])"
    then have "massPositive (particleAt (\<lambda>k. - 3) ord attractors 4096 1)"
      by (simp add: list_all_iff)
    then show False using m [of ord] by (simp add: massPositive_def)
  qed
  with m show ?thesis
    using particleBuffer_eq [OF config_sizes(2) config_sizes(3) [of False], of "\<lambda>k. - 3"]
    by (simp add: PARTICLES_PER_ATTRACTOR_def config_sizes(1))
qed

subsection \<open>The vertical attenuation\<close>

lemma sum_squares_pos:
  fixes a b c :: real
  assumes "a \<noteq> 0 \<or> b \<noteq> 0 \<or> c \<noteq> 0"
  shows "0 < a * a + b * b + c * c"
proof -
  from assms have "0 < a * a \<or> 0 < b * b \<or> 0 < c * c"
    by (auto simp: zero_less_mult_iff)
  moreover have "0 \<le> a * a" "0 \<le> b * b" "0 \<le> c * c" by simp_all
  ultimately show ?thesis by linarith
qed

lemma length_normalize:
  assumes "vec3f a b c \<noteq> vec3f 0 0 0"
  shows "glm_length (glm_normalize (vec3f a b c)) = Some 1"
proof -
  define d where "d = a * a + b * b + c * c"
  from assms have "a \<noteq> 0 \<or> b \<noteq> 0 \<or> c \<noteq> 0" by (auto simp: vec3f_def)
  then have d: "0 < d" unfolding d_def by (rule sum_squares_pos)
  define r where "r = 1 / sqrt d"
  have dot: "glm_dot (vec3f a b c) (vec3f a b c) = Some d"
    by (simp add: glm_dot_def vec3f_def d_def)
  have inv: "glm_inversesqrt (Some d) = Some r"
    using d by (simp add: glm_inversesqrt_def r_def)
  have n: "glm_normalize (vec3f a b c) = vec3f (a * r) (b * r) (c * r)"
    by (simp add: glm_normalize_def dot inv) (simp add: vec3_scale_def vec3f_def)
  have "(a * r) * (a * r) + (b * r) * (b * r) + (c * r) * (c * r) = d * (r * r)"
    by (simp add: d_def algebra_simps)
  also have "r * r = 1 / (sqrt d * sqrt d)" by (simp add: r_def)
  also have "sqrt d * sqrt d = d" using d by simp
  also have "d * (1 / d) = 1" using d by simp
  finally have "glm_dot (vec3f (a * r) (b * r) (c * r)) (vec3f (a * r) (b * r) (c * r)) = Some 1"
    by (simp add: glm_dot_def vec3f_def)
  then show ?thesis by (simp add: glm_length_def n)
qed

lemma length_normalize_zero: "glm_length (glm_normalize (vec3f 0 0 0)) = None"
  by (simp add: glm_length_def glm_normalize_def glm_inversesqrt_def glm_dot_def vec3f_def
      vec3_scale_def)

lemma orbit_offset:
  "vec3_sub (vec3_add (vec3f ax ay az) (vec3_scale (vec3f a b c) (Some s))) (vec3f ax ay az) =
     vec3f (a * s) (b * s) (c * s)"
  by (simp add: vec3_sub_def vec3_add_def vec3_scale_def vec3f_def)

lemma scale_vec3f: "vec3_scale (vec3f a b c) (Some s) = vec3f (a * s) (b * s) (c * s)"
  by (simp add: vec3_scale_def vec3f_def)

text \<open>
  Claim C5 asks for a factor \<open>2 - len\<^sup>2\<close> that varies with the sampled offset and
  flattens the group.  In the code \<open>len\<close> is the length of the normalized offset, which
  is 1 for every offset other than zero: the factor is 1 and the vertical coordinate of
  a non-centre particle is the attractor's plus the unchanged vertical offset.  This
  holds for every finite attractor and in whatever order the three draws are made.
\<close>

theorem attenuation_is_one:
  assumes "atts ! i = vec3f ax ay az"
    and "vec3f (rnd (k + ord 0)) (rnd (k + ord 1)) (rnd (k + ord 2)) \<noteq> vec3f 0 0 0"
  shows "glm_length (glm_normalize (vec3_scale
           (vec3f (rnd (k + ord 0)) (rnd (k + ord 1)) (rnd (k + ord 2))) (Some 0.75))) = Some 1 \<and>
         y4 (pos (orbitParticle rnd ord atts i k)) = Some ((ay + rnd (k + ord 1) * 0.75) * 1)"
proof -
  let ?a = "rnd (k + ord 0)" and ?b = "rnd (k + ord 1)" and ?c = "rnd (k + ord 2)"
  from assms(2) have "vec3f (?a * 0.75) (?b * 0.75) (?c * 0.75) \<noteq> vec3f 0 0 0"
    by (auto simp: vec3f_def)
  then have len: "glm_length (glm_normalize (vec3f (?a * 0.75) (?b * 0.75) (?c * 0.75))) = Some 1"
    by (rule length_normalize)
  have y: "y4 (pos (orbitParticle rnd ord atts i k)) = Some ((ay + ?b * 0.75) * 1)"
    unfolding orbitParticle_def Let_def assms(1) orbit_offset len
    by (simp add: vec4_of_def vec3_add_def vec3_scale_def vec3f_def)
  from len y show ?thesis by (simp only: scale_vec3f simp_thms)
qed

text \<open>
  Two particles of group 0 with vertical offsets 3 and 6 from the attractor, one with
  the draws made left to right and one right to left: both keep their offset.
\<close>

theorem attenuation_is_one_witness:
  "attractors ! 0 = vec3f 5 0 0 \<and>
   vec3f 0 4 0 \<noteq> vec3f 0 0 0 \<and>
   glm_length (glm_normalize (vec3_scale (vec3f 0 4 0) (Some 0.75))) = Some 1 \<and>
   y4 (pos (orbitParticle (\<lambda>k. if k = 1 then 4 else 0) (\<lambda>p. p) attractors 0 0)) = Some 3 \<and>
   vec3f 0 8 0 \<noteq> vec3f 0 0 0 \<and>
   glm_length (glm_normalize (vec3_scale (vec3f 0 8 0) (Some 0.75))) = Some 1 \<and>
   y4 (pos (orbitParticle (\<lambda>k. if k = 1 then 8 else 0) (\<lambda>p. 2 - p) attractors 0 0)) = Some 6"
proof -
  let ?r4 = "\<lambda>k::nat. if k = 1 then 4 else (0::real)"
  let ?r8 = "\<lambda>k::nat. if k = 1 then 8 else (0::real)"
  let ?ltr = "\<lambda>p::nat. p"
  let ?rtl = "\<lambda>p::nat. 2 - p"
  have a: "attractors ! 0 = vec3f 5 0 0" by (simp add: attractors_def)
  have n4: "vec3f (?r4 (0 + ?ltr 0)) (?r4 (0 + ?ltr 1)) (?r4 (0 + ?ltr 2)) \<noteq> vec3f 0 0 0"
    by (simp add: vec3f_def)
  have n8: "vec3f (?r8 (0 + ?rtl 0)) (?r8 (0 + ?rtl 1)) (?r8 (0 + ?rtl 2)) \<noteq> vec3f 0 0 0"
    by (simp add: vec3f_def)
  from attenuation_is_one [OF a n4] attenuation_is_one [OF a n8] a
  show ?thesis by (simp add: vec3f_def)
qed

text \<open>
  At the zero offset the normalization divides by zero and the vertical coordinate is
  not a finite number.
\<close>

lemma zero_offset_not_finite:
  assumes "atts ! i = vec3f ax ay az"
    and "vec3f (rnd (k + ord 0)) (rnd (k + ord 1)) (rnd (k + ord 2)) = vec3f 0 0 0"
  shows "y4 (pos (orbitParticle rnd ord atts i k)) = None"
proof -
  from assms(2) have z: "rnd (k + ord 0) = 0" "rnd (k + ord 1) = 0" "rnd (k + ord 2) = 0"
    by (simp_all add: vec3f_def)
  have len: "glm_length (glm_normalize (vec3f (0 * (75 / 100)) (0 * (75 / 100)) (0 * (75 / 100)))) = None"
    using length_normalize_zero by simp
  show ?thesis
    unfolding orbitParticle_def Let_def assms(1) z orbit_offset
    using len by (simp add: vec4_of_def)
qed

subsection \<open>Determinism\<close>

text \<open>
  Claim C9.  In benchmark mode the seed is the constant 0, whatever the time.  Two
  runs of the initializer whose seeds are equal return the same particle array, for
  the same attractor list and particles per attractor (not overflowing 32 bits):
  neither the time, nor the benchmark flag beyond the seed, nor the previous contents
  of the vector's elements has any influence, and the run returns.  (The order of the
  draws inside one constructor call is fixed by the compiled program, so it is the same
  in both runs.)
\<close>

theorem initializer_deterministic:
  assumes "length atts < 2 ^ 32" and "length atts * ppa < 2 ^ 32"
    and "rndSeed b1 t1 = rndSeed b2 t2"
  shows "rndSeed True t = 0 \<and>
         prepareStorageBuffers engine ord b1 t1 atts ppa d1 =
           prepareStorageBuffers engine ord b2 t2 atts ppa d2 \<and>
         prepareStorageBuffers engine ord True t1 atts ppa d1 =
           prepareStorageBuffers engine ord True t2 atts ppa d2 \<and>
         prepareStorageBuffers engine ord b1 t1 atts ppa d1 \<noteq> None"
  using assms(3)
  by (simp add: prepareStorageBuffers_def particleBuffer_eq [OF assms(1,2)] rndSeed_def)

text \<open>
  Two benchmark runs at different times and over different initial vector contents,
  with the configured attractors and 4096 particles per attractor.
\<close>

theorem initializer_deterministic_witness:
  "rndSeed True 1700000000 = rndSeed True 1800000000 \<and>
   rndSeed True 1700000000 = 0 \<and>
   prepareStorageBuffers (\<lambda>s k. real (unat s) + real k) (\<lambda>p. 2 - p) True 1700000000 attractors
       (PARTICLES_PER_ATTRACTOR False)
       \<lparr>pos = Vec4 (Some 0) (Some 0) (Some 0) (Some 0),
         vel = Vec4 (Some 0) (Some 0) (Some 0) (Some 0)\<rparr> =
     prepareStorageBuffers (\<lambda>s k. real (unat s) + real k) (\<lambda>p. 2 - p) True 1800000000 attractors
       (PARTICLES_PER_ATTRACTOR False)
       \<lparr>pos = Vec4 (Some 1) (Some 2) (Some 3) None, vel = Vec4 (Some 5) None (Some 7) (Some 8)\<rparr> \<and>
   prepareStorageBuffers (\<lambda>s k. real (unat s) + real k) (\<lambda>p. 2 - p) True 1700000000 attractors
       (PARTICLES_PER_ATTRACTOR False)
       \<lparr>pos = Vec4 (Some 0) (Some 0) (Some 0) (Some 0),
         vel = Vec4 (Some 0) (Some 0) (Some 0) (Some 0)\<rparr> \<noteq> None"
proof -
  have s: "rndSeed True 1700000000 = rndSeed True 1800000000"
    by (simp add: rndSeed_def)
  from initializer_deterministic [OF config_sizes(2) config_sizes(3) [of False] s]
  show ?thesis using s by simp
qed

subsection \<open>The compiled configurations\<close>

text \<open>
  Claim C10.  Under both compiled configurations (6 attractors with 4096 particles per
  attractor, or 3072 on Android) the particle count is 6 times the particles per
  attractor and a multiple of 256; the workgroup count issued, \<open>numParticles / 256\<close>
  rounded down, equals the rounded-up quotient; the compute command buffer records
  exactly two dispatches, each of \<open>numParticles / 256\<close> by 1 by 1 workgroups; and the
  threads of each recorded dispatch have exactly the indices
  \<open>0, \<dots>, numParticles - 1\<close>, each once, none past the end of the particle buffer,
  whose length is \<open>numParticles\<close>.
\<close>

theorem configured_dispatch_covers:
  "unat (numParticlesOf attractors (PARTICLES_PER_ATTRACTOR android)) =
     6 * PARTICLES_PER_ATTRACTOR android \<and>
   256 dvd unat (numParticlesOf attractors (PARTICLES_PER_ATTRACTOR android)) \<and>
   dispatchGroupCounts (buildComputeCommandBuffer qf_g qf_c
       (numParticlesOf attractors (PARTICLES_PER_ATTRACTOR android))) =
     [numParticlesOf attractors (PARTICLES_PER_ATTRACTOR android) div 256,
      numParticlesOf attractors (PARTICLES_PER_ATTRACTOR android) div 256] \<and>
   unat (numParticlesOf attractors (PARTICLES_PER_ATTRACTOR android) div 256) =
     ceilDiv (unat (numParticlesOf attractors (PARTICLES_PER_ATTRACTOR android))) workgroupSize \<and>
   globalInvocationIDs (unat (numParticlesOf attractors (PARTICLES_PER_ATTRACTOR android) div 256)) =
     [0..<unat (numParticlesOf attractors (PARTICLES_PER_ATTRACTOR android))] \<and>
   map_option length (particleBuffer rnd ord attractors (PARTICLES_PER_ATTRACTOR android) d) =
     Some (unat (numParticlesOf attractors (PARTICLES_PER_ATTRACTOR android))) \<and>
   filter isDispatch (buildComputeCommandBuffer qf_g qf_c
       (numParticlesOf attractors (PARTICLES_PER_ATTRACTOR android))) =
     [CmdDispatch (numParticlesOf attractors (PARTICLES_PER_ATTRACTOR android) div 256) 1 1,
      CmdDispatch (numParticlesOf attractors (PARTICLES_PER_ATTRACTOR android) div 256) 1 1] \<and>
   dispatchedThreads (buildComputeCommandBuffer qf_g qf_c
       (numParticlesOf attractors (PARTICLES_PER_ATTRACTOR android))) =
     [[0..<unat (numParticlesOf attractors (PARTICLES_PER_ATTRACTOR android))],
      [0..<unat (numParticlesOf attractors (PARTICLES_PER_ATTRACTOR android))]]"
proof -
  let ?n = "numParticlesOf attractors (PARTICLES_PER_ATTRACTOR android)"
  have n: "unat ?n = 6 * PARTICLES_PER_ATTRACTOR android"
    using unat_sizes(2) [OF config_sizes(2) config_sizes(3) [of android]]
    by (simp add: config_sizes(1))
  have dvd: "256 dvd unat ?n"
    unfolding n by (simp add: PARTICLES_PER_ATTRACTOR_def)
  have q: "unat (?n div 256) = unat ?n div 256" by (simp add: unat_div)
  have c: "unat ?n div 256 = ceilDiv (unat ?n) workgroupSize"
    using dvd by (simp add: ceilDiv_cases workgroupSize_def)
  have g: "globalInvocationIDs (unat ?n div 256) = [0..<unat ?n]"
    using dvd by (simp add: gids workgroupSize_def)
  have b: "map_option length (particleBuffer rnd ord attractors (PARTICLES_PER_ATTRACTOR android) d)
             = Some (unat ?n)"
    using particleBuffer_eq [OF config_sizes(2) config_sizes(3) [of android], of rnd ord d]
    by (simp add: n config_sizes(1))
  have f: "filter isDispatch (buildComputeCommandBuffer qf_g qf_c ?n) =
             [CmdDispatch (?n div 256) 1 1, CmdDispatch (?n div 256) 1 1]"
    by (simp add: buildComputeCommandBuffer_def)
  have t: "dispatchedThreads (buildComputeCommandBuffer qf_g qf_c ?n) = [[0..<unat ?n], [0..<unat ?n]]"
    unfolding dispatchedThreads_def f using g by (simp add: q)
  from n dvd c g b f t show ?thesis
    by (simp only: dispatch_counts q)
qed

text \<open>Both configurations in numbers.\<close>

theorem configured_dispatch_covers_witness:
  "unat (numParticlesOf attractors (PARTICLES_PER_ATTRACTOR False)) = 24576 \<and>
   unat (numParticlesOf attractors (PARTICLES_PER_ATTRACTOR True)) = 18432 \<and>
   dispatchGroupCounts (buildComputeCommandBuffer 0 1
       (numParticlesOf attractors (PARTICLES_PER_ATTRACTOR False))) = [96, 96] \<and>
   dispatchGroupCounts (buildComputeCommandBuffer 0 1
       (numParticlesOf attractors (PARTICLES_PER_ATTRACTOR True))) = [72, 72] \<and>
   ceilDiv 24576 workgroupSize = 96 \<and> ceilDiv 18432 workgroupSize = 72 \<and>
   globalInvocationIDs 96 = [0..<24576] \<and> globalInvocationIDs 72 = [0..<18432] \<and>
   filter isDispatch (buildComputeCommandBuffer 0 1
       (numParticlesOf attractors (PARTICLES_PER_ATTRACTOR False))) =
     [CmdDispatch 96 1 1, CmdDispatch 96 1 1] \<and>
   dispatchedThreads (buildComputeCommandBuffer 0 1
       (numParticlesOf attractors (PARTICLES_PER_ATTRACTOR False))) =
     [[0..<24576], [0..<24576]] \<and>
   dispatchedThreads (buildComputeCommandBuffer 0 1
       (numParticlesOf attractors (PARTICLES_PER_ATTRACTOR True))) =
     [[0..<18432], [0..<18432]]"
proof -
  have n: "numParticlesOf attractors (PARTICLES_PER_ATTRACTOR False) = 24576"
    "numParticlesOf attractors (PARTICLES_PER_ATTRACTOR True) = 18432"
    by (simp_all add: numParticlesOf_def ATTRACTORS_SIZE_def attractors_def
        PARTICLES_PER_ATTRACTOR_def)
  from configured_dispatch_covers [of False 0 1] configured_dispatch_covers [of True 0 1]
  show ?thesis unfolding n by simp
qed

section \<open>Properties of the frame loop\<close>

text \<open>
  Claim C7.  A rendered frame consists of exactly these host calls, in this order:
  overwrite the compute uniform buffer, overwrite the graphics uniform buffer, submit
  the compute command buffer, acquire the next image, submit the graphics command
  buffer, present.  Nothing is done when the example is not prepared, the frame's only
  two submissions are those of \<open>draw\<close>, and the host program of \<open>n\<close> frames is that
  sequence \<open>n\<close> times after the first-run signal.
\<close>

theorem frame_sequence:
  "render True =
     [Memcpy compute_uniformBuffer, Memcpy graphics_uniformBuffer,
      QueueSubmit compute_queue computeSubmitInfo, AcquireNextImage presentComplete,
      QueueSubmit graphicQueue submitInfo, QueuePresent renderComplete] \<and>
   render False = [] \<and>
   concat (map submissionsOf (render True)) =
     [(compute_queue, computeSubmitInfo), (graphicQueue, submitInfo)] \<and>
   pCommandBuffers computeSubmitInfo = [compute_commandBuffer] \<and>
   pCommandBuffers submitInfo = [drawCmdBuffers_current] \<and>
   hostProgram n = prepareGraphicPass @ concat (replicate n
     [Memcpy compute_uniformBuffer, Memcpy graphics_uniformBuffer,
      QueueSubmit compute_queue computeSubmitInfo, AcquireNextImage presentComplete,
      QueueSubmit graphicQueue submitInfo, QueuePresent renderComplete])"
  by (simp add: render_def draw_def updateComputeUniformBuffers_def
      updateGraphicsUniformBuffers_def prepareFrame_def submitFrame_def hostProgram_def
      computeSubmitInfo_def submitInfo_def GenSubmitInfo_def)

text \<open>The host program of two frames.\<close>

theorem frame_sequence_witness:
  "hostProgram 2 =
     [QueueSubmit graphicQueue firstRunSubmitInfo, QueueWaitIdle graphicQueue,
      Memcpy compute_uniformBuffer, Memcpy graphics_uniformBuffer,
      QueueSubmit compute_queue computeSubmitInfo, AcquireNextImage presentComplete,
      QueueSubmit graphicQueue submitInfo, QueuePresent renderComplete,
      Memcpy compute_uniformBuffer, Memcpy graphics_uniformBuffer,
      QueueSubmit compute_queue computeSubmitInfo, AcquireNextImage presentComplete,
      QueueSubmit graphicQueue submitInfo, QueuePresent renderComplete]"
  using frame_sequence [of 2] by (simp add: prepareGraphicPass_def numeral_2_eq_2)

section \<open>The semaphore hand-over\<close>

lemma count_list_remove1:
  "count_list (remove1 a xs) b = (if a = b then count_list xs b - 1 else count_list xs b)"
  by (induction xs) auto

lemma count_list_pos: "a \<in> set xs \<Longrightarrow> 0 < count_list xs a"
  by (induction xs) auto

lemma list_all_remove1: "list_all P xs \<Longrightarrow> list_all P (remove1 a xs)"
  by (induction xs) auto

lemma windows_snoc:
  "windows ph (es @ [e]) = (case windows ph es of None \<Rightarrow> None | Some p \<Rightarrow> advance p e)"
  by (induction es arbitrary: ph) (auto split: option.splits)

lemmas work_defs = firstRunWork_def computeWork_def graphicsWork_def firstRunSubmitInfo_def
  computeSubmitInfo_def submitInfo_def GenSubmitInfo_def

lemma work_distinct:
  "firstRunWork \<noteq> computeWork" "firstRunWork \<noteq> graphicsWork" "computeWork \<noteq> graphicsWork"
  "computeWork \<noteq> firstRunWork" "graphicsWork \<noteq> firstRunWork" "graphicsWork \<noteq> computeWork"
  "firstRunWork \<noteq> ImageAcquire a" "firstRunWork \<noteq> PresentImage a"
  "computeWork \<noteq> ImageAcquire a" "computeWork \<noteq> PresentImage a"
  "graphicsWork \<noteq> ImageAcquire a" "graphicsWork \<noteq> PresentImage a"
  "ImageAcquire a \<noteq> firstRunWork" "PresentImage a \<noteq> firstRunWork"
  "ImageAcquire a \<noteq> computeWork" "PresentImage a \<noteq> computeWork"
  "ImageAcquire a \<noteq> graphicsWork" "PresentImage a \<noteq> graphicsWork"
  by (simp_all add: work_defs)

lemma info_distinct:
  "submitInfo \<noteq> firstRunSubmitInfo" "computeSubmitInfo \<noteq> firstRunSubmitInfo"
  "firstRunSubmitInfo \<noteq> submitInfo" "firstRunSubmitInfo \<noteq> computeSubmitInfo"
  "submitInfo \<noteq> computeSubmitInfo" "computeSubmitInfo \<noteq> submitInfo"
  by (simp_all add: work_defs)

lemma work_access:
  "bufferAccess firstRunWork = None" "bufferAccess computeWork = Some WriteAccess"
  "bufferAccess graphicsWork = Some ReadAccess"
  by (simp_all add: work_defs)

lemma work_waits:
  "waitsOf firstRunWork = []" "waitsOf computeWork = [graphics_semaphore]"
  "waitsOf graphicsWork = [compute_semaphore, presentComplete]"
  by (simp_all add: work_defs)

lemma work_signals:
  "signalsOf firstRunWork = [graphics_semaphore]" "signalsOf computeWork = [compute_semaphore]"
  "signalsOf graphicsWork = [graphics_semaphore, renderComplete]"
  by (simp_all add: work_defs)

text \<open>Each kind of step keeps the hand-over invariant.\<close>

lemma handover_Begin:
  assumes h: "handover s ph" and w: "w \<in> set (pending s)" and e: "set (waitsOf w) \<subseteq> signaled s"
  shows "\<exists>ph'. handover (s\<lparr>pending := remove1 w (pending s), running := w # running s,
                    signaled := signaled s - set (waitsOf w),
                    trace := trace s @ [Begins w]\<rparr>) ph'"
proof -
  from h w have k: "knownWork w" by (auto simp: handover_def list_all_iff)
  from w have c: "0 < count_list (pending s) w" by (rule count_list_pos)
  from k consider "w = firstRunWork" | "w = computeWork" | "w = graphicsWork"
    | "w = ImageAcquire presentComplete" | "w = PresentImage renderComplete"
    unfolding knownWork_def by blast
  then show ?thesis
  proof cases
    case 1
    with h c k show ?thesis
      by (intro exI [of _ ph])
         (auto simp: handover_def tokens_def count_list_remove1 list_all_remove1 windows_snoc
            work_distinct work_access work_waits)
  next
    case 2
    with h c k e show ?thesis
      by (intro exI [of _ InCompute], cases ph)
         (auto simp: handover_def tokens_def count_list_remove1 list_all_remove1 windows_snoc
            work_distinct work_access work_waits split: if_splits)
  next
    case 3
    with h c k e show ?thesis
      by (intro exI [of _ InGraphics], cases ph)
         (auto simp: handover_def tokens_def count_list_remove1 list_all_remove1 windows_snoc
            work_distinct work_access work_waits split: if_splits)
  next
    case 4
    with h c k show ?thesis
      by (intro exI [of _ ph])
         (auto simp: handover_def tokens_def count_list_remove1 list_all_remove1 windows_snoc
            work_distinct)
  next
    case 5
    with h c k show ?thesis
      by (intro exI [of _ ph])
         (auto simp: handover_def tokens_def count_list_remove1 list_all_remove1 windows_snoc
            work_distinct)
  qed
qed

lemma handover_End:
  assumes h: "handover s ph" and w: "w \<in> set (running s)"
  shows "\<exists>ph'. handover (s\<lparr>running := remove1 w (running s),
                    signaled := signaled s \<union> set (signalsOf w),
                    trace := trace s @ [Ends w]\<rparr>) ph'"
proof -
  from h w have k: "knownWork w" by (auto simp: handover_def list_all_iff)
  from w have c: "0 < count_list (running s) w" by (rule count_list_pos)
  from k consider "w = firstRunWork" | "w = computeWork" | "w = graphicsWork"
    | "w = ImageAcquire presentComplete" | "w = PresentImage renderComplete"
    unfolding knownWork_def by blast
  then show ?thesis
  proof cases
    case 1
    with h c k show ?thesis
      by (intro exI [of _ ph], cases ph)
         (auto simp: handover_def tokens_def count_list_remove1 list_all_remove1 windows_snoc
            work_distinct work_access work_signals split: if_splits)
  next
    case 2
    with h c k show ?thesis
      by (intro exI [of _ AwaitGraphics], cases ph)
         (auto simp: handover_def tokens_def count_list_remove1 list_all_remove1 windows_snoc
            work_distinct work_access work_signals split: if_splits)
  next
    case 3
    with h c k show ?thesis
      by (intro exI [of _ AwaitCompute], cases ph)
         (auto simp: handover_def tokens_def count_list_remove1 list_all_remove1 windows_snoc
            work_distinct work_access work_signals split: if_splits)
  next
    case 4
    with h c k show ?thesis
      by (intro exI [of _ ph])
         (auto simp: handover_def tokens_def count_list_remove1 list_all_remove1 windows_snoc
            work_distinct)
  next
    case 5
    with h c k show ?thesis
      by (intro exI [of _ ph])
         (auto simp: handover_def tokens_def count_list_remove1 list_all_remove1 windows_snoc
            work_distinct)
  qed
qed

lemma handover_Host:
  assumes h: "handover s ph" and c: "host s = c # rest" and r: "hostStep c (s\<lparr>host := rest\<rparr>) = Some s'"
  shows "handover s' ph"
proof -
  from h c have k: "knownCall c" by (simp add: handover_def)
  then consider "c = QueueSubmit graphicQueue firstRunSubmitInfo" | "c = QueueWaitIdle graphicQueue"
    | "c = Memcpy compute_uniformBuffer" | "c = Memcpy graphics_uniformBuffer"
    | "c = QueueSubmit compute_queue computeSubmitInfo" | "c = AcquireNextImage presentComplete"
    | "c = QueueSubmit graphicQueue submitInfo" | "c = QueuePresent renderComplete"
    unfolding knownCall_def by blast
  then show ?thesis
  proof cases
    case 1
    with h c r show ?thesis
      by (auto simp: handover_def tokens_def knownWork_def work_distinct
          firstRunWork_def [symmetric])
  next
    case 2
    with h c r show ?thesis
      by (auto simp: handover_def tokens_def split: if_splits)
  next
    case 3
    with h c r show ?thesis by (auto simp: handover_def tokens_def)
  next
    case 4
    with h c r show ?thesis by (auto simp: handover_def tokens_def)
  next
    case 5
    with h c r show ?thesis
      by (auto simp: handover_def tokens_def knownWork_def work_distinct info_distinct
          computeWork_def [symmetric])
  next
    case 6
    with h c r show ?thesis
      by (auto simp: handover_def tokens_def knownWork_def work_distinct)
  next
    case 7
    with h c r show ?thesis
      by (auto simp: handover_def tokens_def knownWork_def work_distinct info_distinct
          graphicsWork_def [symmetric])
  next
    case 8
    with h c r show ?thesis
      by (auto simp: handover_def tokens_def knownWork_def work_distinct)
  qed
qed

lemma handover_step:
  assumes "handover s ph" and "step a s = Some s'"
  shows "\<exists>ph'. handover s' ph'"
proof (cases a)
  case HostCall
  with assms(2) obtain c rest where "host s = c # rest" "hostStep c (s\<lparr>host := rest\<rparr>) = Some s'"
    by (cases "host s") simp_all
  with assms(1) have "handover s' ph" by (rule handover_Host)
  then show ?thesis ..
next
  case (Begin w)
  with assms(2) have en: "w \<in> set (pending s)" "set (waitsOf w) \<subseteq> signaled s"
    and s': "s' = s\<lparr>pending := remove1 w (pending s), running := w # running s,
                    signaled := signaled s - set (waitsOf w),
                    trace := trace s @ [Begins w]\<rparr>"
    by (simp_all split: if_splits)
  show ?thesis unfolding s' using assms(1) en by (rule handover_Begin)
next
  case (End w)
  with assms(2) have en: "w \<in> set (running s)"
    and s': "s' = s\<lparr>running := remove1 w (running s),
                    signaled := signaled s \<union> set (signalsOf w),
                    trace := trace s @ [Ends w]\<rparr>"
    by (simp_all split: if_splits)
  show ?thesis unfolding s' using assms(1) en by (rule handover_End)
qed

lemma handover_run:
  "handover s ph \<Longrightarrow> run as s = Some s' \<Longrightarrow> \<exists>ph'. handover s' ph'"
proof (induction as arbitrary: s ph)
  case Nil
  then show ?case by auto
next
  case (Cons a as)
  from Cons.prems(2) obtain s1 where a: "step a s = Some s1" and r: "run as s1 = Some s'"
    by (simp split: option.splits)
  from Cons.prems(1) a obtain ph1 where "handover s1 ph1"
    using handover_step by blast
  then show ?case using r by (rule Cons.IH)
qed

lemma knownCall_hostProgram: "list_all knownCall (hostProgram n)"
  by (induction n)
     (simp_all add: hostProgram_def prepareGraphicPass_def render_def draw_def
        updateComputeUniformBuffers_def updateGraphicsUniformBuffers_def prepareFrame_def
        submitFrame_def knownCall_def)

lemma count_firstRun_render:
  "count_list (concat (replicate n (render True))) (QueueSubmit graphicQueue firstRunSubmitInfo) = 0"
  by (induction n)
     (simp_all add: render_def draw_def
        updateComputeUniformBuffers_def updateGraphicsUniformBuffers_def prepareFrame_def
        submitFrame_def work_defs)

lemma handover_initial: "handover (initial n) AwaitCompute"
  by (simp add: handover_def initial_def tokens_def knownCall_hostProgram)
     (simp add: hostProgram_def prepareGraphicPass_def count_firstRun_render)

lemma openWindows_le:
  assumes "handover s ph"
  shows "length (openWindows s) \<le> 1"
proof -
  have len: "list_all knownWork ws \<Longrightarrow>
      length (filter (\<lambda>w. bufferAccess w \<noteq> None) ws) = count_list ws computeWork + count_list ws graphicsWork" for ws
    by (induction ws) (auto simp: knownWork_def work_access work_distinct)
  from assms have "count_list (running s) computeWork + count_list (running s) graphicsWork \<le> 1"
    by (auto simp: handover_def tokens_def split: if_splits)
  with assms len [of "running s"] show ?thesis
    by (simp add: openWindows_def handover_def)
qed

lemma exampleSchedule_runs: "run exampleSchedule (initial 2) \<noteq> None"
  by (simp add: exampleSchedule_def initial_def hostProgram_def prepareGraphicPass_def render_def
      draw_def updateComputeUniformBuffers_def updateGraphicsUniformBuffers_def prepareFrame_def
      submitFrame_def work_defs numeral_2_eq_2)

lemma exampleSchedule_trace:
  "map_option (\<lambda>s. filter touchesBuffer (trace s)) (run exampleSchedule (initial 2)) =
     Some [Begins computeWork, Ends computeWork, Begins graphicsWork, Ends graphicsWork,
           Begins computeWork]"
  by (simp add: exampleSchedule_def initial_def hostProgram_def prepareGraphicPass_def render_def
      draw_def updateComputeUniformBuffers_def updateGraphicsUniformBuffers_def prepareFrame_def
      submitFrame_def work_defs numeral_2_eq_2)

text \<open>
  Claim C1.  In every frame the compute submission waits on \<open>graphics.semaphore\<close> and
  signals \<open>compute.semaphore\<close>; the graphics submission that follows it waits on
  \<open>compute.semaphore\<close> and on the image-available semaphore, and signals
  \<open>graphics.semaphore\<close> (and the present-ready semaphore); \<open>prepareGraphicPass\<close>
  signals \<open>graphics.semaphore\<close> once, waiting on nothing.  Consequently, for every
  number of frames and every schedule of the device, the write windows of the compute
  work and the read windows of the graphics work on the particle buffer strictly
  alternate, starting with a write, and at most one piece of buffer-touching work is
  in flight at any time.
\<close>

theorem semaphore_alternation:
  "pWaitSemaphores computeSubmitInfo = [graphics_semaphore] \<and>
   pSignalSemaphores computeSubmitInfo = [compute_semaphore] \<and>
   pWaitSemaphores submitInfo = [compute_semaphore, presentComplete] \<and>
   pSignalSemaphores submitInfo = [graphics_semaphore, renderComplete] \<and>
   concat (map submissionsOf draw) =
     [(compute_queue, computeSubmitInfo), (graphicQueue, submitInfo)] \<and>
   concat (map submissionsOf prepareGraphicPass) = [(graphicQueue, firstRunSubmitInfo)] \<and>
   pWaitSemaphores firstRunSubmitInfo = [] \<and>
   pSignalSemaphores firstRunSubmitInfo = [graphics_semaphore] \<and>
   (\<forall>n sched s. run sched (initial n) = Some s \<longrightarrow>
      strictlyAlternate (trace s) \<and> length (openWindows s) \<le> 1)"
proof -
  have "strictlyAlternate (trace s) \<and> length (openWindows s) \<le> 1"
    if "run sched (initial n) = Some s" for n sched s
  proof -
    from handover_initial that obtain ph where h: "handover s ph"
      using handover_run by blast
    then have "windows AwaitCompute (trace s) = Some ph" by (simp add: handover_def)
    then have "strictlyAlternate (trace s)" by (simp add: strictlyAlternate_def)
    moreover from h have "length (openWindows s) \<le> 1" by (rule openWindows_le)
    ultimately show ?thesis ..
  qed
  then show ?thesis
    by (simp add: draw_def prepareGraphicPass_def prepareFrame_def submitFrame_def
        computeSubmitInfo_def submitInfo_def firstRunSubmitInfo_def GenSubmitInfo_def)
qed

text \<open>The example schedule of two frames: it runs, and its windows are as stated.\<close>

theorem semaphore_alternation_witness:
  "\<exists>s. run exampleSchedule (initial 2) = Some s \<and>
        filter touchesBuffer (trace s) =
          [Begins computeWork, Ends computeWork, Begins graphicsWork, Ends graphicsWork,
           Begins computeWork] \<and>
        strictlyAlternate (trace s) \<and> length (openWindows s) \<le> 1"
proof -
  from exampleSchedule_runs obtain s where r: "run exampleSchedule (initial 2) = Some s"
    by blast
  with exampleSchedule_trace have "filter touchesBuffer (trace s) =
          [Begins computeWork, Ends computeWork, Begins graphicsWork, Ends graphicsWork,
           Begins computeWork]"
    by simp
  with r semaphore_alternation show ?thesis by blast
qed

end
